theory Spec2Isabelle
  imports
    Main
    "HOL-Library.Char_ord"
    "HOL-Library.List_Lexorder"
    "HOL-Library.Product_Lexorder"
    "HOL-Library.Multiset"
begin

section \<open>Go strings\<close>

text \<open>
  A Go string is a sequence of bytes, here a \<^typ>\<open>string\<close>. The comparison \<open><\<close> of Go
  strings is the lexicographic order of the bytes, which is the order that
  \<open>Char_ord\<close> and \<open>List_Lexorder\<close> put on \<^typ>\<open>string\<close>.

  The functions of package \<open>strings\<close> that the formatter calls are written out here with
  the behaviour their documentation gives: \<open>HasPrefix\<close>, \<open>TrimPrefix\<close>, \<open>Trim\<close> (with a
  cutset of one byte, the only use in the source), \<open>Split\<close> and \<open>Join\<close>.
\<close>

definition HasPrefix :: "string \<Rightarrow> string \<Rightarrow> bool" where
  "HasPrefix s prefix \<longleftrightarrow> length prefix \<le> length s \<and> take (length prefix) s = prefix"

definition TrimPrefix :: "string \<Rightarrow> string \<Rightarrow> string" where
  "TrimPrefix s prefix = (if HasPrefix s prefix then drop (length prefix) s else s)"

definition Trim :: "string \<Rightarrow> char \<Rightarrow> string" where
  "Trim s c = rev (dropWhile (\<lambda>x. x = c) (rev (dropWhile (\<lambda>x. x = c) s)))"

text \<open>
  \<open>Split s sep\<close> cuts \<open>s\<close> at the non-overlapping occurrences of \<open>sep\<close>, found from the
  left; the result of splitting the empty string is one empty string. The source only
  splits at non-empty separators; for the empty separator Go yields the UTF-8 sequences of
  \<open>s\<close>, written here as its bytes.
\<close>

function Split :: "string \<Rightarrow> string \<Rightarrow> string list" where
  "Split s sep =
     (if sep = [] then map (\<lambda>c. [c]) s
      else if s = [] then [[]]
      else if HasPrefix s sep then [] # Split (drop (length sep) s) sep
      else (case Split (tl s) sep of
              [] \<Rightarrow> [[hd s]]
            | w # ws \<Rightarrow> (hd s # w) # ws))"
  by pat_completeness auto
termination
  by (relation "measure (\<lambda>(s, sep). length s)") (auto simp: HasPrefix_def)

declare Split.simps [simp del]

fun Join :: "string list \<Rightarrow> string \<Rightarrow> string" where
  "Join [] sep = []"
| "Join [x] sep = x"
| "Join (x # y # ys) sep = x @ sep @ Join (y # ys) sep"

text \<open>
  \<open>LastIndex s substr\<close> is the index of the last occurrence of \<open>substr\<close> in \<open>s\<close>, or
  \<open>-1\<close>; \<open>Contains s substr\<close> tells whether there is one.
\<close>

definition LastIndex :: "string \<Rightarrow> string \<Rightarrow> int" where
  "LastIndex s substr =
     (case filter (\<lambda>i. HasPrefix (drop i s) substr) (rev [0..<Suc (length s)]) of
        [] \<Rightarrow> - 1
      | i # _ \<Rightarrow> int i)"

definition Contains :: "string \<Rightarrow> string \<Rightarrow> bool" where
  "Contains s substr \<longleftrightarrow> list_ex (\<lambda>i. HasPrefix (drop i s) substr) [0..<Suc (length s)]"

definition quote :: char where
  "quote = CHR 0x22"

definition newline :: string where
  "newline = [CHR 0x0A]"

section \<open>Sorting a slice\<close>

text \<open>
  \<open>sort.Slice(x, less)\<close> sorts \<open>x\<close> in place by the comparison \<open>less\<close>. It is modelled by
  an insertion sort that returns the sorted list. Go's routine does not promise to keep
  equal elements in their order; where the elements are pairwise ordered by \<open>less\<close>
  (import records with distinct paths, distinct keys) there is only one sorted
  arrangement, and any correct routine returns the list computed here (lemma
  \<open>sortSlice_unique\<close> below).
\<close>

fun insertBy :: "('a \<Rightarrow> 'a \<Rightarrow> bool) \<Rightarrow> 'a \<Rightarrow> 'a list \<Rightarrow> 'a list" where
  "insertBy lt x [] = [x]"
| "insertBy lt x (y # ys) =
     (if lt y x then y # insertBy lt x ys else x # y # ys)"

definition sortSlice :: "('a \<Rightarrow> 'a \<Rightarrow> bool) \<Rightarrow> 'a list \<Rightarrow> 'a list" where
  "sortSlice lt xs = foldr (insertBy lt) xs []"

section \<open>The data model\<close>

text \<open>
  \<open>type ImportGroup int\<close> with the constants \<open>StdGroup\<close>, \<open>ThirdPartyGroup\<close>,
  \<open>ProjectGroup\<close> (an \<open>iota\<close> block) and \<open>OrgGroupBase = 100\<close>. A group is an \<^typ>\<open>int\<close>;
  the only arithmetic on it is \<open>OrgGroupBase + i\<close> for an index \<open>i\<close> into the configured
  organization list, far from the bounds of Go's \<open>int\<close>.
\<close>

type_synonym ImportGroup = int

definition StdGroup :: ImportGroup where "StdGroup = 0"
definition ThirdPartyGroup :: ImportGroup where "ThirdPartyGroup = 1"
definition ProjectGroup :: ImportGroup where "ProjectGroup = 2"
definition OrgGroupBase :: int where "OrgGroupBase = 100"

record Import =
  Name :: string
  Path :: string
  Comment :: string
  Group :: ImportGroup
  OrgIndex :: int
  ProjectName :: string

record FormatterConfig =
  FilePath :: string
  Orgs :: "string list"
  CurrentProject :: string
  InPlace :: bool

text \<open>
  The part of \<open>go/ast\<close> that the formatter reads and builds. An \<open>ast.ImportSpec\<close> has an
  optional name, the path literal (\<open>Path.Value\<close>, with its quotes) and an optional
  comment group, the list of the raw texts of its comments. The parser and
  \<open>addGroupImports\<close> always set the path, so it is not optional here, and the \<open>nil\<close>
  guards on it in \<open>formatImportSpec\<close> and \<open>shouldAddSpacingBetweenImports\<close> are always
  passed. A declaration is an import declaration (\<open>*ast.GenDecl\<close> with
  \<open>Tok == token.IMPORT\<close>) with its specs, all of them import specs, or any other
  declaration, whose content the formatter never inspects.
\<close>

record ImportSpec =
  SpecName :: "string option"
  SpecPath :: string
  SpecComment :: "string list option"

datatype 'd Decl = GenDeclImport "ImportSpec list" | OtherDecl 'd

record 'd File =
  PkgName :: string
  Decls :: "'d Decl list"
  Imports :: "ImportSpec list"
  Comments :: "string list list"

datatype error =
    LibError string
  | Wrapped string error
  | FilesFailedToProcess nat

text \<open>
  The formatter holds its configuration; its \<open>fileSet\<close> is only handed to the parser and
  the printer. What it calls outside the sources at hand is carried by the record as
  well, so that every theorem below holds for any such table or function:
  \<^item> \<open>stdPackages\<close>: the membership test of the generated table \<open>std.StandardPackages\<close>
    behind \<open>std.IsStandardPackage\<close>;
  \<^item> \<open>TrimSpace\<close>: \<open>strings.TrimSpace\<close> (Unicode white space);
  \<^item> \<open>Text\<close>: \<open>ast.CommentGroup.Text\<close>, from the raw comment texts to the comment's text;
  \<^item> \<open>TextPanics\<close>: the comment groups on which that call panics instead of returning.
    It reads each comment text as one that begins with its marker, \<open>//\<close> or \<open>/*\<close>, and
    takes the marker off by position; the parser gives every comment with its marker,
    so the call returns on the groups of a parsed file, as \<open>extractImports\<close> has them;
  \<^item> \<open>ParseFile\<close>: \<open>parser.ParseFile\<close> with \<open>parser.ParseComments\<close>, from the file
    name and the source text to the syntax tree or an error;
  \<^item> \<open>FormatNode\<close>: \<open>format.Node\<close>, from the syntax tree to its text or an error.
\<close>

record 'd formatter =
  config :: FormatterConfig
  stdPackages :: "string \<Rightarrow> bool"
  TrimSpace :: "string \<Rightarrow> string"
  Text :: "string list \<Rightarrow> string"
  TextPanics :: "string list \<Rightarrow> bool"
  ParseFile :: "string \<Rightarrow> string \<Rightarrow> error + 'd File"
  FormatNode :: "'d File \<Rightarrow> error + string"

text \<open>
  The world outside the process: the readable files with their contents, the paths that
  cannot be written, the working directory (\<open>os.Getwd\<close> can fail) and what was printed
  on standard output, one entry for each print statement.
\<close>

datatype message =
    CurrentProjectOutput string
  | SourceText string
  | ImportsOnly string
  | ErrorProcessing string error
  | ProcessedFiles string
  | ProcessedCount nat
  | ErrorCount nat
  | EndOfLine

record world =
  files :: "string \<rightharpoonup> string"
  unwritable :: "string \<Rightarrow> bool"
  workingDir :: "string option"
  stdout :: "message list"

definition getFilePath :: "'d formatter \<Rightarrow> string" where
  "getFilePath g = FilePath (config g)"

definition getOrgs :: "'d formatter \<Rightarrow> string list" where
  "getOrgs g = Orgs (config g)"

definition getInPlace :: "'d formatter \<Rightarrow> bool" where
  "getInPlace g = InPlace (config g)"

section \<open>Classification\<close>

definition isStdImport :: "'d formatter \<Rightarrow> string \<Rightarrow> bool" where
  "isStdImport g importPath = stdPackages g importPath"

text \<open>
  The loop \<open>for i, org := range g.getOrgs()\<close> of \<open>classifyImport\<close>, from index \<open>i\<close> on:
  the first organization that is a prefix of the path decides.
\<close>

fun classifyOrgs :: "string \<Rightarrow> string list \<Rightarrow> int \<Rightarrow> ImportGroup" where
  "classifyOrgs importPath [] i = ThirdPartyGroup"
| "classifyOrgs importPath (org # orgs) i =
     (if HasPrefix importPath org then OrgGroupBase + i
      else classifyOrgs importPath orgs (i + 1))"

definition classifyImport :: "'d formatter \<Rightarrow> string \<Rightarrow> string \<Rightarrow> ImportGroup" where
  "classifyImport g importPath projectModule =
     (if isStdImport g importPath then StdGroup
      else if HasPrefix importPath projectModule then ProjectGroup
      else classifyOrgs importPath (getOrgs g) 0)"

text \<open>The loop of \<open>getOrgInfo\<close>, from index \<open>i\<close> on.\<close>

fun getOrgInfoFrom :: "string \<Rightarrow> string list \<Rightarrow> int \<Rightarrow> int \<times> string" where
  "getOrgInfoFrom importPath [] i = (- 1, [])"
| "getOrgInfoFrom importPath (org # orgs) i =
     (if HasPrefix importPath org then
        (let remaining = TrimPrefix importPath org;
             remaining = TrimPrefix remaining ''/'';
             segments = Split remaining ''/''
         in (case segments of
               seg # _ \<Rightarrow> (i, seg)
             | [] \<Rightarrow> (i, [])))
      else getOrgInfoFrom importPath orgs (i + 1))"

definition getOrgInfo :: "'d formatter \<Rightarrow> string \<Rightarrow> int \<times> string" where
  "getOrgInfo g importPath = getOrgInfoFrom importPath (getOrgs g) 0"

section \<open>The project module\<close>

text \<open>
  \<open>utils.GetProjectModule\<close>. The first loop walks up the directories of the absolute path,
  at most \<open>maxIterations = 20\<close> times, and returns the module named by the first
  \<open>module\<close> line of the first \<open>go.mod\<close> that has one; \<open>findGoMod\<close> is that loop with the
  number of iterations left, and \<open>moduleLine\<close> the scan of the lines of one \<open>go.mod\<close>.
\<close>

fun moduleLine :: "(string \<Rightarrow> string) \<Rightarrow> string list \<Rightarrow> string option" where
  "moduleLine trim [] = None"
| "moduleLine trim (line # lines) =
     (if HasPrefix line ''module '' then Some (trim (TrimPrefix line ''module''))
      else moduleLine trim lines)"

fun findGoMod :: "(string \<Rightarrow> string) \<Rightarrow> world \<Rightarrow> nat \<Rightarrow> string \<Rightarrow> string option" where
  "findGoMod trim w 0 dir = None"
| "findGoMod trim w (Suc n) dir =
     (let lastSlash = LastIndex dir ''/''
      in if lastSlash \<le> 0 then None
         else (let dir = take (nat lastSlash) dir;
                   goModPath = dir @ ''/go.mod''
               in (case files w goModPath of
                     Some content \<Rightarrow>
                       (case moduleLine trim (Split content newline) of
                          Some module \<Rightarrow> Some module
                        | None \<Rightarrow> findGoMod trim w n dir)
                   | None \<Rightarrow> findGoMod trim w n dir)))"

definition inferFromPath :: "string \<Rightarrow> string" where
  "inferFromPath filePath =
     (if Contains filePath ''/src/'' then
        (let parts = Split filePath ''/src/''
         in if length parts > 1 then
              (let pathParts = Split (parts ! 1) ''/''
               in if length pathParts \<ge> 3 then Join (take 3 pathParts) ''/'' else [])
            else [])
      else [])"

definition GetProjectModule :: "(string \<Rightarrow> string) \<Rightarrow> world \<Rightarrow> string \<Rightarrow> string" where
  "GetProjectModule trim w filePath =
     (let absPath =
            (if \<not> HasPrefix filePath ''/'' then
               (case workingDir w of
                  Some wd \<Rightarrow> wd @ ''/'' @ filePath
                | None \<Rightarrow> filePath)
             else filePath)
      in (case findGoMod trim w 20 absPath of
            Some module \<Rightarrow> module
          | None \<Rightarrow> inferFromPath filePath))"

definition getCurrentProject :: "'d formatter \<Rightarrow> world \<Rightarrow> string" where
  "getCurrentProject g w =
     (if CurrentProject (config g) = [] then GetProjectModule (TrimSpace g) w (getFilePath g)
      else CurrentProject (config g))"

section \<open>Extraction, grouping and sorting\<close>

text \<open>
  \<open>extractImports\<close>: the loop over \<open>file.Imports\<close>, with the set \<open>seen\<close> of the paths met so
  far and the records collected so far; \<open>newImport\<close> is the record that the loop body
  builds. The fields that it does not set have Go's zero values.
\<close>

definition newImport :: "'d formatter \<Rightarrow> string \<Rightarrow> ImportSpec \<Rightarrow> Import" where
  "newImport g path importSpec =
     (let imp = \<lparr>Name = [], Path = path, Comment = [], Group = 0, OrgIndex = 0,
                 ProjectName = []\<rparr>;
          imp = (case SpecName importSpec of Some n \<Rightarrow> imp\<lparr>Name := n\<rparr> | None \<Rightarrow> imp);
          imp = (case SpecComment importSpec of
                   Some c \<Rightarrow> imp\<lparr>Comment := Text g c\<rparr> | None \<Rightarrow> imp)
      in imp)"

fun extractLoop ::
  "'d formatter \<Rightarrow> string set \<Rightarrow> Import list \<Rightarrow> ImportSpec list \<Rightarrow> Import list" where
  "extractLoop g seen imports [] = imports"
| "extractLoop g seen imports (importSpec # rest) =
     (let path = Trim (SpecPath importSpec) quote
      in if path \<in> seen then extractLoop g seen imports rest
         else extractLoop g (insert path seen) (imports @ [newImport g path importSpec]) rest)"

definition extractImports :: "'d formatter \<Rightarrow> 'd File \<Rightarrow> Import list" where
  "extractImports g file = extractLoop g {} [] (Imports file)"

text \<open>The two comparisons that \<open>sortImportsInGroup\<close> hands to \<open>sort.Slice\<close>.\<close>

definition lessOrg :: "Import \<Rightarrow> Import \<Rightarrow> bool" where
  "lessOrg a b =
     (if ProjectName a \<noteq> ProjectName b then ProjectName a < ProjectName b
      else Path a < Path b)"

definition lessPath :: "Import \<Rightarrow> Import \<Rightarrow> bool" where
  "lessPath a b \<longleftrightarrow> Path a < Path b"

definition sortImportsInGroup :: "Import list \<Rightarrow> ImportGroup \<Rightarrow> Import list" where
  "sortImportsInGroup imports grp =
     (if grp \<ge> OrgGroupBase then sortSlice lessOrg imports
      else sortSlice lessPath imports)"

text \<open>
  The grouped-import table \<open>map[ImportGroup][]Import\<close>; reading a key that is absent
  gives the empty slice.
\<close>

type_synonym grouped = "ImportGroup \<rightharpoonup> Import list"

definition lookupGroup :: "grouped \<Rightarrow> ImportGroup \<Rightarrow> Import list" where
  "lookupGroup grouped grp = (case grouped grp of Some imports \<Rightarrow> imports | None \<Rightarrow> [])"

text \<open>One pass of the first loop of \<open>groupImports\<close> over a record, and the loop.\<close>

definition assignGroup :: "'d formatter \<Rightarrow> string \<Rightarrow> Import \<Rightarrow> Import" where
  "assignGroup g projectModule imp =
     (let imp = imp\<lparr>Group := classifyImport g (Path imp) projectModule\<rparr>
      in if Group imp \<ge> OrgGroupBase then
           (case getOrgInfo g (Path imp) of
              (orgIndex, projectName) \<Rightarrow> imp\<lparr>OrgIndex := orgIndex, ProjectName := projectName\<rparr>)
         else imp)"

fun groupLoop :: "'d formatter \<Rightarrow> string \<Rightarrow> grouped \<Rightarrow> Import list \<Rightarrow> grouped" where
  "groupLoop g projectModule grouped [] = grouped"
| "groupLoop g projectModule grouped (imp # imports) =
     (let imp = assignGroup g projectModule imp
      in groupLoop g projectModule
           (grouped(Group imp \<mapsto> lookupGroup grouped (Group imp) @ [imp])) imports)"

text \<open>
  \<open>groupImports\<close> first settles the project module (\<open>resolveProjectModule\<close> is its
  first statements), then runs the loop, then sorts the list of every key of the table.
\<close>

definition resolveProjectModule :: "'d formatter \<Rightarrow> world \<Rightarrow> string \<Rightarrow> string" where
  "resolveProjectModule g w filePath =
     (let projectModule = getCurrentProject g w
      in if projectModule = [] then GetProjectModule (TrimSpace g) w filePath
         else projectModule)"

definition groupImports :: "'d formatter \<Rightarrow> world \<Rightarrow> Import list \<Rightarrow> string \<Rightarrow> grouped" where
  "groupImports g w imports filePath =
     (let projectModule = resolveProjectModule g w filePath;
          grouped = groupLoop g projectModule Map.empty imports
      in (\<lambda>k. case grouped k of
                 Some imports \<Rightarrow> Some (sortImportsInGroup imports k)
               | None \<Rightarrow> None))"

section \<open>Rebuilding the import declaration\<close>

text \<open>
  \<open>addGroupImports\<close> appends one spec for each record to \<open>importDecl.Specs\<close>, here the
  first argument, and the result is the new list of specs.
\<close>

definition newImportSpec :: "Import \<Rightarrow> ImportSpec" where
  "newImportSpec imp =
     \<lparr>SpecName = (if Name imp \<noteq> [] then Some (Name imp) else None),
      SpecPath = [quote] @ Path imp @ [quote],
      SpecComment = (if Comment imp \<noteq> [] then Some [Comment imp] else None)\<rparr>"

fun addGroupImports :: "ImportSpec list \<Rightarrow> Import list \<Rightarrow> ImportSpec list" where
  "addGroupImports specs [] = specs"
| "addGroupImports specs (imp # imports) = addGroupImports (specs @ [newImportSpec imp]) imports"

text \<open>
  \<open>addOrgImports\<close> collects the records under the key \<open>(OrgIndex, ProjectName)\<close>, sorts
  the distinct keys by index and then by name, and adds the records key after key, each
  key's records in the order they came in. The keys are taken from a Go map, in no
  fixed order; being distinct and totally ordered by the comparison, they have one sorted
  arrangement only.
\<close>

definition orgProject :: "Import \<Rightarrow> int \<times> string" where
  "orgProject imp = (OrgIndex imp, ProjectName imp)"

definition lessKey :: "int \<times> string \<Rightarrow> int \<times> string \<Rightarrow> bool" where
  "lessKey a b = (if fst a \<noteq> fst b then fst a < fst b else snd a < snd b)"

definition addOrgImports :: "ImportSpec list \<Rightarrow> Import list \<Rightarrow> ImportSpec list" where
  "addOrgImports specs imports =
     (if imports = [] then specs
      else (let keys = sortSlice lessKey (remdups (map orgProject imports))
            in foldl (\<lambda>specs key. addGroupImports specs (filter (\<lambda>imp. orgProject imp = key) imports))
                 specs keys))"

definition hasOrgImports :: "'d formatter \<Rightarrow> grouped \<Rightarrow> bool" where
  "hasOrgImports g groupedImports \<longleftrightarrow>
     list_ex (\<lambda>i. length (lookupGroup groupedImports (OrgGroupBase + int i)) > 0)
       [0..<length (getOrgs g)]"

definition isImportDecl :: "'d Decl \<Rightarrow> bool" where
  "isImportDecl decl = (case decl of GenDeclImport _ \<Rightarrow> True | OtherDecl _ \<Rightarrow> False)"

definition replaceImports :: "'d formatter \<Rightarrow> 'd File \<Rightarrow> grouped \<Rightarrow> 'd File" where
  "replaceImports g file groupedImports =
     (let newDecls = filter (\<lambda>decl. \<not> isImportDecl decl) (Decls file);
          hasImports =
            (length (lookupGroup groupedImports StdGroup) > 0
             \<or> length (lookupGroup groupedImports ThirdPartyGroup) > 0
             \<or> length (lookupGroup groupedImports ProjectGroup) > 0
             \<or> hasOrgImports g groupedImports)
      in if hasImports then
           (let specs = [];
                specs = (let imports = lookupGroup groupedImports StdGroup
                         in if length imports > 0 then addGroupImports specs imports else specs);
                specs = (let imports = lookupGroup groupedImports ThirdPartyGroup
                         in if length imports > 0 then addGroupImports specs imports else specs);
                specs = foldl (\<lambda>specs i.
                          (let imports = lookupGroup groupedImports (OrgGroupBase + int i)
                           in if length imports > 0 then addOrgImports specs imports else specs))
                        specs [0..<length (getOrgs g)];
                specs = (let imports = lookupGroup groupedImports ProjectGroup
                         in if length imports > 0 then addGroupImports specs imports else specs)
            in file\<lparr>Decls := GenDeclImport specs # newDecls\<rparr>)
         else file\<lparr>Decls := newDecls\<rparr>)"

section \<open>Serialization\<close>

definition tab :: char where
  "tab = CHR 0x09"

text \<open>
  \<open>formatImportSpec\<close> calls \<open>spec.Comment.Text()\<close> on the comment group of the spec. For a
  spec that \<open>addGroupImports\<close> built, the group holds the comment text as the extractor
  kept it, without its marker, and the call can panic; the result is then \<open>None\<close>.
\<close>

definition formatImportSpec :: "'d formatter \<Rightarrow> ImportSpec \<Rightarrow> string option" where
  "formatImportSpec g spec =
     (let parts = [];
          parts = (case SpecName spec of Some n \<Rightarrow> parts @ [n] | None \<Rightarrow> parts);
          parts = parts @ [SpecPath spec]
      in (case SpecComment spec of
            Some c \<Rightarrow>
              if TextPanics g c then None
              else (let comment = TrimSpace g (Text g c);
                        parts = (if comment \<noteq> [] then parts @ [''// '' @ comment] else parts)
                    in Some (Join parts '' ''))
          | None \<Rightarrow> Some (Join parts '' '')))"

text \<open>
  \<open>shouldAddSpacingBetweenImports\<close> reads \<open>specs[currentIndex]\<close> and
  \<open>specs[currentIndex-1]\<close>; its callers pass the index of their loop over \<open>specs\<close>.
\<close>

definition shouldAddSpacingBetweenImports ::
  "'d formatter \<Rightarrow> world \<Rightarrow> ImportSpec list \<Rightarrow> nat \<Rightarrow> bool" where
  "shouldAddSpacingBetweenImports g w specs currentIndex =
     (if currentIndex = 0 then False
      else (let currentSpec = specs ! currentIndex;
                prevSpec = specs ! (currentIndex - 1);
                currentPath = Trim (SpecPath currentSpec) quote;
                prevPath = Trim (SpecPath prevSpec) quote;
                currentGroup = classifyImport g currentPath (getCurrentProject g w);
                prevGroup = classifyImport g prevPath (getCurrentProject g w)
            in if currentGroup \<noteq> prevGroup then True
               else if currentGroup \<ge> OrgGroupBase then
                 (let currentOrgProject = snd (getOrgInfo g currentPath);
                      prevOrgProject = snd (getOrgInfo g prevPath)
                  in if currentOrgProject \<noteq> prevOrgProject \<and> prevOrgProject \<noteq> []
                        \<and> currentOrgProject \<noteq> []
                     then True else False)
               else False))"

text \<open>
  The lines that the loop \<open>for i, spec := range importDecl.Specs\<close> appends, in
  \<open>formatFile\<close> and in \<open>formatImportsOnly\<close> alike: for each spec an empty line if spacing
  is due, then the tab and the formatted spec. \<open>importSpecLoop\<close> is the loop over the
  indexes that are left; a panic in formatting a spec ends it, and the result is \<open>None\<close>.
\<close>

fun importSpecLoop ::
  "'d formatter \<Rightarrow> world \<Rightarrow> ImportSpec list \<Rightarrow> nat list \<Rightarrow> string list option" where
  "importSpecLoop g w specs [] = Some []"
| "importSpecLoop g w specs (i # rest) =
     (case formatImportSpec g (specs ! i) of
        None \<Rightarrow> None
      | Some importLine \<Rightarrow>
          map_option
            (\<lambda>lines. (if i > 0 \<and> shouldAddSpacingBetweenImports g w specs i then [[]] else [])
                      @ [tab # importLine] @ lines)
            (importSpecLoop g w specs rest))"

definition importSpecLines ::
  "'d formatter \<Rightarrow> world \<Rightarrow> ImportSpec list \<Rightarrow> string list option" where
  "importSpecLines g w specs = importSpecLoop g w specs [0..<length specs]"

text \<open>
  \<open>formatFile\<close>. The import declaration kept is the last one of the file, \<open>None\<close> for
  \<open>nil\<close>. The file is printed without its imports, and the loop over the printed lines
  (\<open>insertImports\<close>, with the flag \<open>packageLineFound\<close>) puts an empty line and the import
  block after the first line that begins, white space apart, with \<open>package\<close> and a
  space. The result is \<open>None\<close> when formatting a spec of the block panics.
\<close>

definition lastImportDecl :: "'d Decl list \<Rightarrow> ImportSpec list option" where
  "lastImportDecl decls =
     foldl (\<lambda>importDecl decl.
              case decl of GenDeclImport specs \<Rightarrow> Some specs | OtherDecl _ \<Rightarrow> importDecl)
       None decls"

definition importBlock ::
  "'d formatter \<Rightarrow> world \<Rightarrow> ImportSpec list option \<Rightarrow> string list option" where
  "importBlock g w importDecl =
     (case importDecl of
        None \<Rightarrow> Some []
      | Some specs \<Rightarrow>
          if length specs > 0
          then map_option (\<lambda>lines. [''import (''] @ lines @ ['')''] @ [[]])
                 (importSpecLines g w specs)
          else Some [])"

fun insertImports ::
  "'d formatter \<Rightarrow> world \<Rightarrow> ImportSpec list option \<Rightarrow> bool \<Rightarrow> string list
     \<Rightarrow> string list option" where
  "insertImports g w importDecl packageLineFound [] = Some []"
| "insertImports g w importDecl packageLineFound (line # lines) =
     (if \<not> packageLineFound \<and> HasPrefix (TrimSpace g line) ''package ''
      then (case importBlock g w importDecl of
              None \<Rightarrow> None
            | Some block \<Rightarrow>
                map_option (\<lambda>result. [line] @ [[]] @ block @ result)
                  (insertImports g w importDecl True lines))
      else map_option (\<lambda>result. [line] @ result)
             (insertImports g w importDecl packageLineFound lines))"

definition formatFile :: "'d formatter \<Rightarrow> world \<Rightarrow> 'd File \<Rightarrow> (error + string) option" where
  "formatFile g w file =
     (let importDecl = lastImportDecl (Decls file);
          nonImportDecls = filter (\<lambda>decl. \<not> isImportDecl decl) (Decls file)
      in (case FormatNode g (file\<lparr>Imports := [], Decls := nonImportDecls\<rparr>) of
            Inl err \<Rightarrow> Some (Inl err)
          | Inr buf \<Rightarrow>
              (let lines = Split buf newline
               in map_option (\<lambda>result. Inr (Join result newline))
                    (insertImports g w importDecl False lines))))"

text \<open>
  \<open>formatImportsOnly\<close> prints the package line and the first import declaration of the
  file it is given; \<open>extractImportsOnly\<close> hands it the import declarations of the file.
\<close>

definition formatImportsOnly ::
  "'d formatter \<Rightarrow> world \<Rightarrow> 'd File \<Rightarrow> (error + string) option" where
  "formatImportsOnly g w file =
     (let result = [''package '' @ PkgName file] @ [[]];
          result =
            (case filter isImportDecl (Decls file) of
               GenDeclImport specs # _ \<Rightarrow>
                 if length specs > 0
                 then map_option (\<lambda>lines. result @ [''import (''] @ lines @ ['')''])
                        (importSpecLines g w specs)
                 else Some result
             | _ \<Rightarrow> Some result)
      in map_option (\<lambda>result. Inr (Join result newline @ newline)) result)"

definition extractImportsOnly ::
  "'d formatter \<Rightarrow> world \<Rightarrow> 'd File \<Rightarrow> (error + string) option" where
  "extractImportsOnly g w file =
     formatImportsOnly g w
       \<lparr>PkgName = PkgName file, Decls = filter isImportDecl (Decls file),
        Imports = Imports file, Comments = []\<rparr>"

section \<open>Processing files\<close>

definition ErrMsgFailedToReadFile :: string where
  "ErrMsgFailedToReadFile = ''failed to read file''"

definition ErrMsgFailedToParseFile :: string where
  "ErrMsgFailedToParseFile = ''failed to parse file''"

definition ErrMsgFailedToFormatFile :: string where
  "ErrMsgFailedToFormatFile = ''failed to format file''"

definition ErrMsgFailedToExtractImports :: string where
  "ErrMsgFailedToExtractImports = ''failed to extract imports''"

text \<open>
  Printing appends to standard output. \<open>os.ReadFile\<close> fails on a path that is not a
  readable file; \<open>os.WriteFile\<close> fails on a path that cannot be written, and is taken to
  leave the files as they were in that case.
\<close>

definition print :: "world \<Rightarrow> message \<Rightarrow> world" where
  "print w m = w\<lparr>stdout := stdout w @ [m]\<rparr>"

definition ReadFile :: "world \<Rightarrow> string \<Rightarrow> error + string" where
  "ReadFile w name =
     (case files w name of
        Some src \<Rightarrow> Inr src
      | None \<Rightarrow> Inl (LibError ''open''))"

definition WriteFile :: "world \<Rightarrow> string \<Rightarrow> string \<Rightarrow> error option \<times> world" where
  "WriteFile w name data =
     (if unwritable w name then (Some (LibError ''write''), w)
      else (None, w\<lparr>files := (files w)(name \<mapsto> data)\<rparr>))"

text \<open>
  A call of the driver either returns, with its result and the world it leaves, or
  panics: nothing in the program recovers, the process ends there, and the world is the
  one reached at that moment.
\<close>

datatype 'a run = Returns 'a world | Panics world

definition ProcessFileWithOutput ::
  "'d formatter \<Rightarrow> world \<Rightarrow> bool \<Rightarrow> error option run" where
  "ProcessFileWithOutput g w verbose =
     (let w = (if verbose then print w (CurrentProjectOutput (getCurrentProject g w)) else w)
      in (case ReadFile w (getFilePath g) of
            Inl err \<Rightarrow> Returns (Some (Wrapped ErrMsgFailedToReadFile err)) w
          | Inr src \<Rightarrow>
              (case ParseFile g (getFilePath g) src of
                 Inl err \<Rightarrow> Returns (Some (Wrapped ErrMsgFailedToParseFile err)) w
               | Inr file \<Rightarrow>
                   if length (Imports file) = 0 then
                     (if getInPlace g then Returns None w
                      else if \<not> getInPlace g \<and> verbose
                      then Returns None (print w (SourceText src))
                      else Returns None w)
                   else
                     (let imports = extractImports g file;
                          groupedImports = groupImports g w imports (getFilePath g);
                          newFile = replaceImports g file groupedImports
                      in (case formatFile g w newFile of
                            None \<Rightarrow> Panics w
                          | Some (Inl err) \<Rightarrow>
                              Returns (Some (Wrapped ErrMsgFailedToFormatFile err)) w
                          | Some (Inr output) \<Rightarrow>
                              if getInPlace g then
                                (case WriteFile w (getFilePath g) output of
                                   (err, w) \<Rightarrow> Returns err w)
                              else if verbose then
                                (case extractImportsOnly g w newFile of
                                   None \<Rightarrow> Panics w
                                 | Some (Inl err) \<Rightarrow>
                                     Returns (Some (Wrapped ErrMsgFailedToExtractImports err)) w
                                 | Some (Inr importsOnly) \<Rightarrow>
                                     Returns None (print w (ImportsOnly importsOnly)))
                              else Returns None w)))))"

definition ProcessFile :: "'d formatter \<Rightarrow> world \<Rightarrow> error option run" where
  "ProcessFile g w = ProcessFileWithOutput g w True"

text \<open>
  \<open>ProcessFiles\<close>: the loop over the paths sets \<open>g.config.FilePath\<close>, processes the file
  and counts; \<open>processLoop\<close> is that loop on the formatter, the world and the two counters,
  and returns the formatter and the counters. A panic in processing a file ends the
  loop and \<open>ProcessFiles\<close> with it.
\<close>

fun processLoop ::
  "'d formatter \<Rightarrow> world \<Rightarrow> nat \<Rightarrow> nat \<Rightarrow> string list \<Rightarrow> ('d formatter \<times> nat \<times> nat) run" where
  "processLoop g w processedCount errorCount [] = Returns (g, processedCount, errorCount) w"
| "processLoop g w processedCount errorCount (filePath # filePaths) =
     (let g = g\<lparr>config := (config g)\<lparr>FilePath := filePath\<rparr>\<rparr>
      in (case ProcessFileWithOutput g w False of
            Panics w \<Rightarrow> Panics w
          | Returns (Some err) w \<Rightarrow>
              processLoop g (print w (ErrorProcessing filePath err))
                processedCount (errorCount + 1) filePaths
          | Returns None w \<Rightarrow>
              processLoop g (if getInPlace g then print w (ProcessedFiles filePath) else w)
                (processedCount + 1) errorCount filePaths))"

definition ProcessFiles ::
  "'d formatter \<Rightarrow> world \<Rightarrow> string list \<Rightarrow> (error option \<times> 'd formatter) run" where
  "ProcessFiles g w filePaths =
     (case processLoop g w 0 0 filePaths of
        Panics w \<Rightarrow> Panics w
      | Returns (g, processedCount, errorCount) w \<Rightarrow>
          (let w = print w (ProcessedCount processedCount);
               w = (if errorCount > 0 then print w (ErrorCount errorCount) else w);
               w = print w EndOfLine
           in if errorCount > 0 then Returns (Some (FilesFailedToProcess errorCount), g) w
              else Returns (None, g) w))"

text \<open>
  The words of the specification for a batch: the single-file transform is applied to
  each path in turn, whatever the results for the earlier paths. \<open>fileRun\<close> is the
  transform on one path and \<open>afterFile\<close> the world after it, with the line that the
  batch prints for the file; \<open>batchRuns\<close> lists the runs for all the paths, each in the
  world that the earlier ones left, and \<open>batchWorld\<close> is the world after the last.
\<close>

definition fileRun :: "'d formatter \<Rightarrow> world \<Rightarrow> string \<Rightarrow> error option run" where
  "fileRun g w filePath =
     ProcessFileWithOutput (g\<lparr>config := (config g)\<lparr>FilePath := filePath\<rparr>\<rparr>) w False"

definition afterFile :: "'d formatter \<Rightarrow> world \<Rightarrow> string \<Rightarrow> world" where
  "afterFile g w filePath =
     (case fileRun g w filePath of
        Returns (Some err) w' \<Rightarrow> print w' (ErrorProcessing filePath err)
      | Returns None w' \<Rightarrow> if getInPlace g then print w' (ProcessedFiles filePath) else w'
      | Panics w' \<Rightarrow> w')"

fun batchRuns :: "'d formatter \<Rightarrow> world \<Rightarrow> string list \<Rightarrow> error option run list" where
  "batchRuns g w [] = []"
| "batchRuns g w (filePath # filePaths) =
     fileRun g w filePath # batchRuns g (afterFile g w filePath) filePaths"

fun batchWorld :: "'d formatter \<Rightarrow> world \<Rightarrow> string list \<Rightarrow> world" where
  "batchWorld g w [] = w"
| "batchWorld g w (filePath # filePaths) = batchWorld g (afterFile g w filePath) filePaths"

definition succeeded :: "error option run \<Rightarrow> bool" where
  "succeeded r = (case r of Returns None _ \<Rightarrow> True | _ \<Rightarrow> False)"

definition failed :: "error option run \<Rightarrow> bool" where
  "failed r = (case r of Returns (Some _) _ \<Rightarrow> True | _ \<Rightarrow> False)"

definition panicked :: "'a run \<Rightarrow> bool" where
  "panicked r = (case r of Panics _ \<Rightarrow> True | Returns _ _ \<Rightarrow> False)"

text \<open>
  The words of the specification: \<open>prefix\<close> is a path-segment-respecting prefix of \<open>path\<close>
  when the path is the prefix itself or continues it with a path separator.
\<close>

definition segment_prefix :: "string \<Rightarrow> string \<Rightarrow> bool" where
  "segment_prefix prefix path \<longleftrightarrow> path = prefix \<or> HasPrefix path (prefix @ ''/'')"

text \<open>A formatter for the closed examples: two organizations and a small standard table.\<close>

text \<open>
  Stand-ins for the library functions in the closed examples: they trim ASCII white
  space, read \<open>//\<close> comments, print one declaration to a paragraph and parse the
  example sources only. \<open>example_TextPanics\<close> holds where taking the marker off by
  position reads outside the comment text: the text has no second byte, or its second
  byte is \<open>*\<close>, which makes it a \<open>/*\<close> comment whose two first and two last bytes are cut,
  and it has fewer than four bytes.
\<close>

definition example_TrimSpace :: "string \<Rightarrow> string" where
  "example_TrimSpace s =
     (let sp = (\<lambda>c. c \<in> set [CHR '' '', CHR 0x09, CHR 0x0A, CHR 0x0D])
      in rev (dropWhile sp (rev (dropWhile sp s))))"

definition example_Text :: "string list \<Rightarrow> string" where
  "example_Text cs = concat (map (\<lambda>c. example_TrimSpace (TrimPrefix c ''//'') @ newline) cs)"

definition example_TextPanics :: "string list \<Rightarrow> bool" where
  "example_TextPanics cs =
     list_ex (\<lambda>c. length c < 2 \<or> c ! 1 = CHR ''*'' \<and> length c < 4) cs"

definition example_FormatNode :: "string File \<Rightarrow> error + string" where
  "example_FormatNode file =
     Inr (''package '' @ PkgName file @ newline
          @ concat (map (\<lambda>decl. case decl of
                                  OtherDecl t \<Rightarrow> newline @ t @ newline
                                | GenDeclImport _ \<Rightarrow> newline @ ''import ()'' @ newline)
                     (Decls file)))"

definition example_source :: string where
  "example_source =
     ''package main'' @ newline @ newline
     @ ''import ('' @ newline
     @ [tab, quote] @ ''strings'' @ [quote] @ newline
     @ [tab, quote] @ ''fmt'' @ [quote] @ newline
     @ '')'' @ newline @ newline
     @ ''func main() {}'' @ newline"

definition example_tree :: "string File" where
  "example_tree =
     (let specs = [\<lparr>SpecName = None, SpecPath = [quote] @ ''strings'' @ [quote], SpecComment = None\<rparr>,
                   \<lparr>SpecName = None, SpecPath = [quote] @ ''fmt'' @ [quote], SpecComment = None\<rparr>]
      in \<lparr>PkgName = ''main'', Decls = [GenDeclImport specs, OtherDecl ''func main() {}''],
          Imports = specs, Comments = []\<rparr>)"

definition plain_source :: string where
  "plain_source = ''package main'' @ newline @ newline @ ''func main() {}'' @ newline"

definition plain_tree :: "string File" where
  "plain_tree =
     \<lparr>PkgName = ''main'', Decls = [OtherDecl ''func main() {}''], Imports = [], Comments = []\<rparr>"

definition star_source :: string where
  "star_source =
     ''package main'' @ newline @ newline
     @ ''import ('' @ newline
     @ [tab, quote] @ ''fmt'' @ [quote] @ '' // a*'' @ newline
     @ '')'' @ newline @ newline
     @ ''func main() {}'' @ newline"

definition star_tree :: "string File" where
  "star_tree =
     (let specs = [\<lparr>SpecName = None, SpecPath = [quote] @ ''fmt'' @ [quote],
                    SpecComment = Some [''// a*'']\<rparr>]
      in \<lparr>PkgName = ''main'', Decls = [GenDeclImport specs, OtherDecl ''func main() {}''],
          Imports = specs, Comments = [[''// a*'']]\<rparr>)"

definition example_ParseFile :: "string \<Rightarrow> string \<Rightarrow> error + string File" where
  "example_ParseFile filename src =
     (if src = example_source then Inr example_tree
      else if src = plain_source then Inr plain_tree
      else if src = star_source then Inr star_tree
      else Inl (LibError ''syntax error''))"

definition example_std :: "string \<Rightarrow> bool" where
  "example_std p \<longleftrightarrow> p \<in> set [''fmt'', ''os'', ''strings'', ''net/http'']"

definition example_formatter :: "string formatter" where
  "example_formatter =
     \<lparr>config = \<lparr>FilePath = ''/work/main.go'',
                Orgs = [''github.com/myorg'', ''gitlab.com/anotherorg''],
                CurrentProject = ''github.com/test/project'',
                InPlace = True\<rparr>,
      stdPackages = example_std,
      TrimSpace = example_TrimSpace,
      Text = example_Text,
      TextPanics = example_TextPanics,
      ParseFile = example_ParseFile,
      FormatNode = example_FormatNode\<rparr>"

definition overlap_formatter :: "string formatter" where
  "overlap_formatter =
     \<lparr>config = \<lparr>FilePath = ''/work/main.go'',
                Orgs = [''github.com/myorg'', ''github.com/myorg-labs''],
                CurrentProject = ''github.com/test/project'',
                InPlace = True\<rparr>,
      stdPackages = example_std,
      TrimSpace = example_TrimSpace,
      Text = example_Text,
      TextPanics = example_TextPanics,
      ParseFile = example_ParseFile,
      FormatNode = example_FormatNode\<rparr>"

definition example_imports :: "Import list" where
  "example_imports =
     map (\<lambda>p. \<lparr>Name = [], Path = p, Comment = [], Group = 0, OrgIndex = 0, ProjectName = []\<rparr>)
       [''github.com/external/lib'', ''fmt'', ''github.com/test/project/internal'', ''strings'',
        ''github.com/myorg/project2/x'', ''github.com/myorg/project1/a'']"

definition example_world :: world where
  "example_world =
     \<lparr>files = Map.empty, unwritable = (\<lambda>_. False), workingDir = Some ''/work'', stdout = []\<rparr>"

definition batch_world :: world where
  "batch_world =
     \<lparr>files = [''/work/main.go'' \<mapsto> example_source, ''/work/plain.go'' \<mapsto> plain_source,
               ''/work/broken.go'' \<mapsto> ''pakage main'', ''/work/star.go'' \<mapsto> star_source],
      unwritable = (\<lambda>_. False), workingDir = Some ''/work'', stdout = []\<rparr>"

definition example_file :: "string File" where
  "example_file =
     \<lparr>PkgName = ''main'', Decls = [GenDeclImport [], OtherDecl ''func main() {}''],
      Imports = [], Comments = []\<rparr>"

definition duplicate_file :: "string File" where
  "duplicate_file =
     \<lparr>PkgName = ''main'',
      Decls = [],
      Imports =
        [\<lparr>SpecName = None, SpecPath = [quote] @ ''fmt'' @ [quote], SpecComment = Some [''// first'']\<rparr>,
         \<lparr>SpecName = Some ''errors'', SpecPath = [quote] @ ''github.com/pkg/errors'' @ [quote],
          SpecComment = None\<rparr>,
         \<lparr>SpecName = Some ''f'', SpecPath = [quote] @ ''fmt'' @ [quote],
          SpecComment = Some [''// second'']\<rparr>],
      Comments = []\<rparr>"

definition example_specs :: "ImportSpec list" where
  "example_specs =
     map (\<lambda>p. \<lparr>SpecName = None, SpecPath = [quote] @ p @ [quote], SpecComment = None\<rparr>)
       [''fmt'', ''strings'', ''github.com/external/lib'', ''github.com/myorg/project1/a'',
        ''github.com/myorg/project1/b'', ''github.com/myorg/project2/x'', ''github.com/myorg'',
        ''github.com/test/project/internal'']"

definition plain_formatter :: "string formatter" where
  "plain_formatter =
     example_formatter\<lparr>config := (config example_formatter)
                         \<lparr>FilePath := ''/work/plain.go'', InPlace := False\<rparr>\<rparr>"

definition batch_paths :: "string list" where
  "batch_paths = [''/work/missing.go'', ''/work/main.go'', ''/work/broken.go'', ''/work/plain.go'']"

definition unresolved_formatter :: "string formatter" where
  "unresolved_formatter =
     example_formatter\<lparr>config := (config example_formatter)\<lparr>CurrentProject := []\<rparr>\<rparr>"

section \<open>Facts about the string functions\<close>

lemma HasPrefix_append [simp]: "HasPrefix (p @ t) p"
  by (simp add: HasPrefix_def)

lemma HasPrefix_iff: "HasPrefix s p \<longleftrightarrow> (\<exists>t. s = p @ t)"
proof
  assume "HasPrefix s p"
  then have "s = p @ drop (length p) s"
    by (metis HasPrefix_def append_take_drop_id)
  then show "\<exists>t. s = p @ t" ..
next
  assume "\<exists>t. s = p @ t"
  then show "HasPrefix s p" by auto
qed

lemma HasPrefix_Nil [simp]: "HasPrefix s []"
  by (simp add: HasPrefix_def)

lemma TrimPrefix_append [simp]: "TrimPrefix (p @ t) p = t"
  by (simp add: TrimPrefix_def)

lemma HasPrefix_Cons:
  "HasPrefix (c # cs) (d # ds) \<longleftrightarrow> c = d \<and> HasPrefix cs ds"
  by (auto simp: HasPrefix_def)

lemma HasPrefix_Nil_left [simp]: "HasPrefix [] p \<longleftrightarrow> p = []"
  by (auto simp: HasPrefix_def)

lemma Split_nonempty: "sep \<noteq> [] \<Longrightarrow> Split s sep \<noteq> []"
  by (subst Split.simps) (auto split: list.splits)

text \<open>The first piece of a split at one byte is what precedes the first such byte.\<close>

lemma hd_Split_char: "hd (Split s [c]) = takeWhile (\<lambda>x. x \<noteq> c) s"
proof (induction s)
  case Nil
  show ?case by (subst Split.simps) simp
next
  case (Cons a s)
  show ?case
  proof (cases "a = c")
    case True
    then show ?thesis
      by (subst Split.simps) (simp add: HasPrefix_Cons)
  next
    case False
    have ne: "Split s [c] \<noteq> []" by (rule Split_nonempty) simp
    then obtain w ws where sp: "Split s [c] = w # ws" by (cases "Split s [c]") auto
    with Cons have "w = takeWhile (\<lambda>x. x \<noteq> c) s" by simp
    with False sp show ?thesis
      by (subst Split.simps) (simp add: HasPrefix_Cons)
  qed
qed

text \<open>Joining the pieces of a split with the separator gives the string back.\<close>

lemma Join_Split: "sep \<noteq> [] \<Longrightarrow> Join (Split s sep) sep = s"
proof (induction s sep rule: Split.induct)
  case (1 s sep)
  show ?case
  proof (cases "s = []")
    case True
    with 1 show ?thesis by (subst Split.simps) simp
  next
    case ne: False
    show ?thesis
    proof (cases "HasPrefix s sep")
      case True
      have nonempty: "Split (drop (length sep) s) sep \<noteq> []"
        using "1.prems" by (rule Split_nonempty)
      then obtain y ys where y: "Split (drop (length sep) s) sep = y # ys"
        by (cases "Split (drop (length sep) s) sep") auto
      from "1.IH"(1) [OF "1.prems" ne True "1.prems"]
      have "Join (Split (drop (length sep) s) sep) sep = drop (length sep) s" .
      moreover from True have "s = sep @ drop (length sep) s"
        by (metis HasPrefix_def append_take_drop_id)
      ultimately show ?thesis
        using "1.prems" ne True y by (subst Split.simps) simp
    next
      case False
      have nonempty: "Split (tl s) sep \<noteq> []"
        using "1.prems" by (rule Split_nonempty)
      then obtain y ys where y: "Split (tl s) sep = y # ys"
        by (cases "Split (tl s) sep") auto
      from "1.IH"(2) [OF "1.prems" ne False "1.prems"]
      have "Join (Split (tl s) sep) sep = tl s" .
      with y have "Join ((hd s # y) # ys) sep = hd s # tl s"
        by (cases ys) auto
      with ne False "1.prems" y show ?thesis
        by (subst Split.simps) simp
    qed
  qed
qed

section \<open>Facts about the classifier\<close>

lemma classifyOrgs_range:
  "classifyOrgs p orgs i = ThirdPartyGroup \<or> OrgGroupBase + i \<le> classifyOrgs p orgs i"
  by (induction orgs arbitrary: i) (auto, force)

lemma classifyOrgs_not_Project: "0 \<le> i \<Longrightarrow> classifyOrgs p orgs i \<noteq> ProjectGroup"
  using classifyOrgs_range [of p orgs i]
  by (auto simp: ThirdPartyGroup_def ProjectGroup_def OrgGroupBase_def)

lemma classifyOrgs_first:
  "i < length orgs \<Longrightarrow> HasPrefix p (orgs ! i) \<Longrightarrow> \<forall>j<i. \<not> HasPrefix p (orgs ! j) \<Longrightarrow>
   classifyOrgs p orgs k = OrgGroupBase + k + int i"
proof (induction orgs arbitrary: i k)
  case Nil
  then show ?case by simp
next
  case (Cons a orgs)
  show ?case
  proof (cases i)
    case 0
    with Cons.prems show ?thesis by simp
  next
    case (Suc n)
    with Cons.prems have "\<not> HasPrefix p a" by auto
    moreover have "classifyOrgs p orgs (k + 1) = OrgGroupBase + (k + 1) + int n"
      using Cons.prems Suc by (intro Cons.IH) auto
    ultimately show ?thesis using Suc by simp
  qed
qed

lemma getOrgInfoFrom_first:
  "i < length orgs \<Longrightarrow> HasPrefix p (orgs ! i) \<Longrightarrow> \<forall>j<i. \<not> HasPrefix p (orgs ! j) \<Longrightarrow>
   getOrgInfoFrom p orgs k =
     (k + int i,
      takeWhile (\<lambda>c. c \<noteq> CHR ''/'') (TrimPrefix (TrimPrefix p (orgs ! i)) ''/''))"
proof (induction orgs arbitrary: i k)
  case Nil
  then show ?case by simp
next
  case (Cons a orgs)
  show ?case
  proof (cases i)
    case 0
    have "Split s ''/'' \<noteq> []" for s by (rule Split_nonempty) simp
    then have "(case Split s ''/'' of [] \<Rightarrow> (k, []) | seg # _ \<Rightarrow> (k, seg)) =
        (k, hd (Split s ''/''))" for s
      by (cases "Split s ''/''") auto
    with 0 Cons.prems show ?thesis by (simp add: hd_Split_char)
  next
    case (Suc n)
    with Cons.prems have "\<not> HasPrefix p a" by auto
    moreover have "getOrgInfoFrom p orgs (k + 1) =
        (k + 1 + int n,
         takeWhile (\<lambda>c. c \<noteq> CHR ''/'') (TrimPrefix (TrimPrefix p (orgs ! n)) ''/''))"
      using Cons.prems Suc by (intro Cons.IH) auto
    ultimately show ?thesis using Suc by simp
  qed
qed

section \<open>Facts about sorting\<close>

lemma mset_insertBy [simp]: "mset (insertBy lt x xs) = add_mset x (mset xs)"
  by (induction xs) auto

lemma mset_sortSlice [simp]: "mset (sortSlice lt xs) = mset xs"
  by (induction xs) (auto simp: sortSlice_def)

lemma set_insertBy [simp]: "set (insertBy lt x xs) = insert x (set xs)"
  by (induction xs) auto

lemma set_sortSlice [simp]: "set (sortSlice lt xs) = set xs"
  by (induction xs) (auto simp: sortSlice_def)

lemma sorted_insertBy:
  fixes f :: "'a \<Rightarrow> 'k::linorder"
  assumes lt: "\<And>a b. lt a b \<longleftrightarrow> f a < f b"
  shows "sorted (map f xs) \<Longrightarrow> sorted (map f (insertBy lt x xs))"
  by (induction xs) (auto simp: lt)

lemma sorted_sortSlice:
  fixes f :: "'a \<Rightarrow> 'k::linorder"
  assumes lt: "\<And>a b. lt a b \<longleftrightarrow> f a < f b"
  shows "sorted (map f (sortSlice lt xs))"
proof (induction xs)
  case Nil show ?case by (simp add: sortSlice_def)
next
  case (Cons x xs)
  have "sortSlice lt (x # xs) = insertBy lt x (sortSlice lt xs)" by (simp add: sortSlice_def)
  with Cons sorted_insertBy [of lt f, OF lt] show ?case by simp
qed

lemma lessPath_key: "lessPath a b \<longleftrightarrow> Path a < Path b"
  by (simp add: lessPath_def)

lemma lessOrg_key: "lessOrg a b \<longleftrightarrow> (ProjectName a, Path a) < (ProjectName b, Path b)"
  by (auto simp: lessOrg_def less_prod_def)

lemma lessKey_key: "lessKey a b \<longleftrightarrow> a < b"
  by (auto simp: lessKey_def less_prod_def)

lemma split_sorted_min:
  fixes f :: "'a \<Rightarrow> 'k::linorder"
  shows "sorted (map f xs) \<Longrightarrow> \<forall>x\<in>set xs. k \<le> f x \<Longrightarrow>
    filter (\<lambda>x. f x = k) xs @ filter (\<lambda>x. f x \<noteq> k) xs = xs"
proof (induction xs)
  case Nil show ?case by simp
next
  case (Cons x xs)
  show ?case
  proof (cases "f x = k")
    case True with Cons show ?thesis by simp
  next
    case False
    with Cons.prems have "k < f x" by auto
    with Cons.prems have "\<forall>y\<in>set xs. f y \<noteq> k" by auto
    then have "filter (\<lambda>x. f x = k) xs = []" "filter (\<lambda>x. f x \<noteq> k) xs = xs"
      by (auto simp: filter_empty_conv filter_id_conv)
    with False show ?thesis by simp
  qed
qed

lemma regroup_sorted:
  fixes f :: "'a \<Rightarrow> 'k::linorder"
  shows "sorted ks \<Longrightarrow> distinct ks \<Longrightarrow> f ` set xs \<subseteq> set ks \<Longrightarrow> sorted (map f xs) \<Longrightarrow>
    concat (map (\<lambda>k. filter (\<lambda>x. f x = k) xs) ks) = xs"
proof (induction ks arbitrary: xs)
  case Nil then show ?case by simp
next
  case (Cons k ks)
  let ?B = "filter (\<lambda>x. f x \<noteq> k) xs"
  have min: "\<forall>x\<in>set xs. k \<le> f x" using Cons.prems by auto
  have split: "filter (\<lambda>x. f x = k) xs @ ?B = xs"
    using Cons.prems(4) min by (rule split_sorted_min)
  have "concat (map (\<lambda>k'. filter (\<lambda>x. f x = k') xs) ks) = concat (map (\<lambda>k'. filter (\<lambda>x. f x = k') ?B) ks)"
  proof -
    have "filter (\<lambda>x. f x = k') xs = filter (\<lambda>x. f x = k') ?B" if "k' \<in> set ks" for k'
    proof -
      from that Cons.prems(2) have "k' \<noteq> k" by auto
      then show ?thesis by (auto intro: filter_cong)
    qed
    then show ?thesis by (metis (mono_tags, lifting) map_eq_conv)
  qed
  also have "\<dots> = ?B"
  proof (rule Cons.IH)
    show "sorted ks" "distinct ks" using Cons.prems by auto
    show "f ` set ?B \<subseteq> set ks" using Cons.prems(3) by auto
    show "sorted (map f ?B)" using Cons.prems(4) by (simp add: sorted_map sorted_wrt_filter)
  qed
  finally show ?case using split by simp
qed

text \<open>
  Where the keys of the elements are distinct, a sorted arrangement of the elements is
  the list that \<open>sortSlice\<close> returns: the model of \<open>sort.Slice\<close> does not depend on
  the sorting routine there.
\<close>

lemma sortSlice_unique:
  fixes f :: "'a \<Rightarrow> 'k::linorder"
  assumes lt: "\<And>a b. lt a b \<longleftrightarrow> f a < f b"
    and dist: "distinct (map f xs)"
    and perm: "mset ys = mset xs"
    and srt: "sorted (map f ys)"
  shows "ys = sortSlice lt xs"
proof -
  let ?zs = "sortSlice lt xs"
  have "mset (map f ys) = mset (map f xs)" using perm by simp
  then have dy: "distinct (map f ys)" using dist by (metis mset_eq_imp_distinct_iff)
  have "mset (map f ?zs) = mset (map f xs)" by simp
  then have dz: "distinct (map f ?zs)" using dist by (metis mset_eq_imp_distinct_iff)
  have sz: "sorted (map f ?zs)" by (rule sorted_sortSlice) (rule lt)
  have sets: "set ys = set xs" using perm by (rule mset_eq_setD)
  then have "set (map f ys) = set (map f ?zs)" by simp
  with srt dy sz dz have eq: "map f ys = map f ?zs" by (intro sorted_distinct_set_unique)
  have "inj_on f (set xs)" using dist by (simp add: distinct_map)
  with sets have "inj_on f (set ys \<union> set ?zs)" by simp
  then show ?thesis using eq by (simp add: inj_on_map_eq_map)
qed

section \<open>Facts about extraction\<close>

lemma extractLoop_acc:
  "extractLoop g seen acc specs = acc @ extractLoop g seen [] specs"
proof (induction specs arbitrary: seen acc)
  case Nil
  show ?case by simp
next
  case (Cons s specs)
  let ?p = "Trim (SpecPath s) quote"
  show ?case
  proof (cases "?p \<in> seen")
    case True
    then show ?thesis using Cons.IH [of seen acc] by (simp add: Let_def)
  next
    case False
    have "extractLoop g (insert ?p seen) (acc @ [newImport g ?p s]) specs
        = (acc @ [newImport g ?p s]) @ extractLoop g (insert ?p seen) [] specs"
      by (rule Cons.IH)
    moreover have "extractLoop g (insert ?p seen) [newImport g ?p s] specs
        = [newImport g ?p s] @ extractLoop g (insert ?p seen) [] specs"
      by (rule Cons.IH)
    ultimately show ?thesis using False by (simp add: Let_def)
  qed
qed

lemma extractLoop_Cons:
  "extractLoop g seen [] (s # specs) =
     (if Trim (SpecPath s) quote \<in> seen then extractLoop g seen [] specs
      else newImport g (Trim (SpecPath s) quote) s
           # extractLoop g (insert (Trim (SpecPath s) quote) seen) [] specs)"
  using extractLoop_acc [of g "insert (Trim (SpecPath s) quote) seen"
      "[newImport g (Trim (SpecPath s) quote) s]" specs]
  by (simp add: Let_def)

declare extractLoop.simps(2) [simp del]

lemma Path_newImport [simp]: "Path (newImport g p s) = p"
  by (simp add: newImport_def Let_def split: option.splits)

lemma Name_newImport: "Name (newImport g p s) = (case SpecName s of Some n \<Rightarrow> n | None \<Rightarrow> [])"
  by (simp add: newImport_def Let_def split: option.splits)

lemma Comment_newImport:
  "Comment (newImport g p s) = (case SpecComment s of Some c \<Rightarrow> Text g c | None \<Rightarrow> [])"
  by (simp add: newImport_def Let_def split: option.splits)

lemma extractLoop_paths:
  "Path ` set (extractLoop g seen [] specs) = (\<lambda>s. Trim (SpecPath s) quote) ` set specs - seen"
proof (induction specs arbitrary: seen)
  case Nil
  show ?case by simp
next
  case (Cons s specs)
  show ?case unfolding extractLoop_Cons by (auto simp: Cons.IH)
qed

lemma extractLoop_distinct:
  "distinct (map Path (extractLoop g seen [] specs))"
proof (induction specs arbitrary: seen)
  case Nil
  show ?case by simp
next
  case (Cons s specs)
  show ?case unfolding extractLoop_Cons
    using extractLoop_paths [of g "insert (Trim (SpecPath s) quote) seen" specs]
    by (auto simp: Cons.IH)
qed

lemma extractLoop_first:
  "r \<in> set (extractLoop g seen [] specs) \<Longrightarrow>
   \<exists>s. find (\<lambda>s. Trim (SpecPath s) quote = Path r) specs = Some s
     \<and> Name r = (case SpecName s of Some n \<Rightarrow> n | None \<Rightarrow> [])
     \<and> Comment r = (case SpecComment s of Some c \<Rightarrow> Text g c | None \<Rightarrow> [])"
proof (induction specs arbitrary: seen)
  case Nil
  then show ?case by simp
next
  case (Cons s specs)
  let ?p = "Trim (SpecPath s) quote"
  show ?case
  proof (cases "?p \<in> seen")
    case True
    with Cons.prems have r: "r \<in> set (extractLoop g seen [] specs)"
      by (simp add: extractLoop_Cons)
    then have "Path r \<in> Path ` set (extractLoop g seen [] specs)" by (rule imageI)
    then have "Path r \<notin> seen" unfolding extractLoop_paths by simp
    with True have "?p \<noteq> Path r" by auto
    with Cons.IH [OF r] show ?thesis by simp
  next
    case False
    with Cons.prems consider (new) "r = newImport g ?p s"
      | (old) "r \<in> set (extractLoop g (insert ?p seen) [] specs)"
      by (auto simp: extractLoop_Cons)
    then show ?thesis
    proof cases
      case new
      then show ?thesis by (simp add: Name_newImport Comment_newImport)
    next
      case old
      then have "Path r \<in> Path ` set (extractLoop g (insert ?p seen) [] specs)" by (rule imageI)
      then have "Path r \<noteq> ?p" unfolding extractLoop_paths by auto
      with Cons.IH [OF old] show ?thesis by simp
    qed
  qed
qed

section \<open>Facts about grouping\<close>

lemma addGroupImports_eq: "addGroupImports specs imps = specs @ map newImportSpec imps"
  by (induction imps arbitrary: specs) auto

lemma lookupGroup_upd: "lookupGroup (m(k \<mapsto> v)) k' = (if k' = k then v else lookupGroup m k')"
  by (simp add: lookupGroup_def)

lemma lookupGroup_groupLoop:
  "lookupGroup (groupLoop g pm grouped imps) k =
     lookupGroup grouped k @ filter (\<lambda>i. Group i = k) (map (assignGroup g pm) imps)"
  by (induction imps arbitrary: grouped) (auto simp: Let_def lookupGroup_upd)

lemma lookupGroup_empty [simp]: "lookupGroup Map.empty k = []"
  by (simp add: lookupGroup_def)

lemma sortImportsInGroup_Nil [simp]: "sortImportsInGroup [] k = []"
  by (simp add: sortImportsInGroup_def sortSlice_def)

lemma lookupGroup_groupImports:
  "lookupGroup (groupImports g w imps filePath) k =
     sortImportsInGroup
       (filter (\<lambda>i. Group i = k) (map (assignGroup g (resolveProjectModule g w filePath)) imps)) k"
proof -
  have "lookupGroup (\<lambda>k. case m k of Some xs \<Rightarrow> Some (sortImportsInGroup xs k) | None \<Rightarrow> None) k
      = sortImportsInGroup (lookupGroup m k) k" for m :: grouped
    by (simp add: lookupGroup_def split: option.splits)
  then show ?thesis
    by (simp add: groupImports_def Let_def lookupGroup_groupLoop)
qed

lemma Group_assignGroup [simp]: "Group (assignGroup g pm imp) = classifyImport g (Path imp) pm"
  by (simp add: assignGroup_def Let_def split: prod.splits)

lemma Path_assignGroup [simp]: "Path (assignGroup g pm imp) = Path imp"
  by (simp add: assignGroup_def Let_def split: prod.splits)

lemma Name_assignGroup [simp]: "Name (assignGroup g pm imp) = Name imp"
  by (simp add: assignGroup_def Let_def split: prod.splits)

lemma Comment_assignGroup [simp]: "Comment (assignGroup g pm imp) = Comment imp"
  by (simp add: assignGroup_def Let_def split: prod.splits)

lemma org_assignGroup:
  "OrgGroupBase \<le> classifyImport g (Path imp) pm \<Longrightarrow>
   OrgIndex (assignGroup g pm imp) = fst (getOrgInfo g (Path imp)) \<and>
   ProjectName (assignGroup g pm imp) = snd (getOrgInfo g (Path imp))"
  by (simp add: assignGroup_def Let_def split: prod.splits)

lemma classifyOrgs_cases:
  "classifyOrgs p orgs k = ThirdPartyGroup \<or>
   (\<exists>i<length orgs. classifyOrgs p orgs k = OrgGroupBase + k + int i)"
proof (induction orgs arbitrary: k)
  case Nil show ?case by simp
next
  case (Cons a orgs)
  show ?case
  proof (cases "HasPrefix p a")
    case True then show ?thesis by auto
  next
    case False
    from Cons [of "k + 1"] show ?thesis
    proof
      assume "classifyOrgs p orgs (k + 1) = ThirdPartyGroup"
      with False show ?thesis by simp
    next
      assume "\<exists>i<length orgs. classifyOrgs p orgs (k + 1) = OrgGroupBase + (k + 1) + int i"
      then obtain i where "i < length orgs" "classifyOrgs p orgs (k + 1) = OrgGroupBase + (k + 1) + int i" by blast
      with False have "Suc i < length (a # orgs) \<and> classifyOrgs p (a # orgs) k = OrgGroupBase + k + int (Suc i)" by simp
      then show ?thesis by blast
    qed
  qed
qed

lemma classifyImport_cases:
  "classifyImport g p pm = StdGroup \<or> classifyImport g p pm = ThirdPartyGroup \<or>
   classifyImport g p pm = ProjectGroup \<or>
   (\<exists>i<length (getOrgs g). classifyImport g p pm = OrgGroupBase + int i)"
  using classifyOrgs_cases [of p "getOrgs g" 0] by (auto simp: classifyImport_def)

lemma getOrgInfoFrom_index:
  "0 \<le> k \<Longrightarrow> OrgGroupBase + k \<le> classifyOrgs p orgs k \<Longrightarrow>
   fst (getOrgInfoFrom p orgs k) = classifyOrgs p orgs k - OrgGroupBase"
proof (induction orgs arbitrary: k)
  case Nil then show ?case by (simp add: ThirdPartyGroup_def OrgGroupBase_def)
next
  case (Cons a orgs)
  show ?case
  proof (cases "HasPrefix p a")
    case True then show ?thesis by (simp add: Let_def split: list.splits)
  next
    case False
    have "OrgGroupBase + (k + 1) \<le> classifyOrgs p orgs (k + 1)"
      using classifyOrgs_range [of p orgs "k + 1"] Cons.prems False
      by (auto simp: ThirdPartyGroup_def OrgGroupBase_def)
    with Cons.IH [of "k + 1"] Cons.prems False show ?thesis by simp
  qed
qed

lemma getOrgInfo_index:
  "OrgGroupBase \<le> classifyImport g p pm \<Longrightarrow>
   fst (getOrgInfo g p) = classifyImport g p pm - OrgGroupBase"
  using getOrgInfoFrom_index [of 0 p "getOrgs g"]
  by (auto simp: classifyImport_def getOrgInfo_def StdGroup_def ProjectGroup_def OrgGroupBase_def split: if_splits)

lemma foldl_append_specs:
  "\<forall>i\<in>set js. \<forall>s. H s i = s @ F i \<Longrightarrow> foldl H s js = s @ concat (map F js)"
  by (induction js arbitrary: s) auto

lemma addOrgImports_eq:
  "addOrgImports specs imps =
     specs @ map newImportSpec
       (concat (map (\<lambda>k. filter (\<lambda>i. orgProject i = k) imps)
                  (sortSlice lessKey (remdups (map orgProject imps)))))"
proof (cases "imps = []")
  case True
  then show ?thesis by (simp add: addOrgImports_def sortSlice_def)
next
  case False
  have "foldl (\<lambda>specs key. addGroupImports specs (filter (\<lambda>imp. orgProject imp = key) imps)) specs ks
      = specs @ concat (map (\<lambda>k. map newImportSpec (filter (\<lambda>i. orgProject i = k) imps)) ks)" for ks
    by (rule foldl_append_specs) (simp add: addGroupImports_eq)
  with False show ?thesis
    by (simp add: addOrgImports_def Let_def map_concat comp_def)
qed

lemma addOrgImports_sorted:
  assumes "sorted (map orgProject imps)"
  shows "addOrgImports specs imps = specs @ map newImportSpec imps"
proof -
  let ?ks = "sortSlice lessKey (remdups (map orgProject imps))"
  have "sorted (map (\<lambda>k. k) ?ks)" by (rule sorted_sortSlice) (rule lessKey_key)
  then have 1: "sorted ?ks" by simp
  have "mset ?ks = mset (remdups (map orgProject imps))" by simp
  then have 2: "distinct ?ks" by (metis distinct_remdups mset_eq_imp_distinct_iff)
  have 3: "orgProject ` set imps \<subseteq> set ?ks" by simp
  have "concat (map (\<lambda>k. filter (\<lambda>i. orgProject i = k) imps) ?ks) = imps"
    using 1 2 3 assms by (rule regroup_sorted)
  then show ?thesis by (simp add: addOrgImports_eq)
qed

lemma sorted_org_group:
  assumes "\<forall>x\<in>set xs. OrgIndex x = n"
  shows "sorted (map orgProject (sortSlice lessOrg xs))"
proof -
  have "sorted (map (\<lambda>i. (ProjectName i, Path i)) (sortSlice lessOrg xs))"
    by (rule sorted_sortSlice) (rule lessOrg_key)
  then have "sorted_wrt (\<lambda>a b. (ProjectName a, Path a) \<le> (ProjectName b, Path b)) (sortSlice lessOrg xs)"
    by (simp add: sorted_map)
  then have "sorted_wrt (\<lambda>a b. orgProject a \<le> orgProject b) (sortSlice lessOrg xs)"
  proof (rule sorted_wrt_mono_rel [rotated])
    fix a b assume "a \<in> set (sortSlice lessOrg xs)" "b \<in> set (sortSlice lessOrg xs)"
      and "(ProjectName a, Path a) \<le> (ProjectName b, Path b)"
    with assms show "orgProject a \<le> orgProject b"
      by (auto simp: orgProject_def less_eq_prod_def)
  qed
  then show ?thesis by (simp add: sorted_map)
qed

lemma org_members_index:
  assumes "x \<in> set (filter (\<lambda>i. Group i = OrgGroupBase + int n) (map (assignGroup g pm) imps))"
  shows "OrgIndex x = int n"
proof -
  from assms obtain imp where x: "x = assignGroup g pm imp" and c: "classifyImport g (Path imp) pm = OrgGroupBase + int n"
    by auto
  then have "OrgGroupBase \<le> classifyImport g (Path imp) pm" by simp
  from org_assignGroup [OF this] getOrgInfo_index [OF this] x c show ?thesis by simp
qed

lemma sorted_lessOrg:
  "sorted_wrt (\<lambda>a b. ProjectName a < ProjectName b \<or> ProjectName a = ProjectName b \<and> Path a \<le> Path b)
     (sortSlice lessOrg xs)"
proof -
  have "sorted (map (\<lambda>i. (ProjectName i, Path i)) (sortSlice lessOrg xs))"
    by (rule sorted_sortSlice) (rule lessOrg_key)
  then have "sorted_wrt (\<lambda>a b. (ProjectName a, Path a) \<le> (ProjectName b, Path b)) (sortSlice lessOrg xs)"
    by (simp add: sorted_map)
  then show ?thesis
    by (rule sorted_wrt_mono_rel [rotated]) (auto simp: less_eq_prod_def)
qed

lemma sorted_lessPath: "sorted (map Path (sortSlice lessPath xs))"
  by (rule sorted_sortSlice) (rule lessPath_key)

lemma lookup_small_groups:
  "k < OrgGroupBase \<Longrightarrow> lookupGroup (groupImports g w imps filePath) k =
     sortSlice lessPath (filter (\<lambda>i. Group i = k) (map (assignGroup g (resolveProjectModule g w filePath)) imps))"
  by (simp add: lookupGroup_groupImports sortImportsInGroup_def)

lemma lookup_org_groups:
  "lookupGroup (groupImports g w imps filePath) (OrgGroupBase + int n) =
     sortSlice lessOrg (filter (\<lambda>i. Group i = OrgGroupBase + int n) (map (assignGroup g (resolveProjectModule g w filePath)) imps))"
  by (simp add: lookupGroup_groupImports sortImportsInGroup_def)

lemma addOrgImports_group:
  "addOrgImports specs (lookupGroup (groupImports g w imps filePath) (OrgGroupBase + int n))
     = specs @ map newImportSpec (lookupGroup (groupImports g w imps filePath) (OrgGroupBase + int n))"
  unfolding lookup_org_groups
  by (rule addOrgImports_sorted, rule sorted_org_group [where n = "int n"]) (blast dest: org_members_index)

lemma hasImports_groupImports:
  fixes g :: "'d formatter" and w :: world and filePath :: string
  assumes "imps \<noteq> []"
  defines "tbl \<equiv> groupImports g w imps filePath"
  shows "length (lookupGroup tbl StdGroup) > 0
         \<or> length (lookupGroup tbl ThirdPartyGroup) > 0
         \<or> length (lookupGroup tbl ProjectGroup) > 0
         \<or> hasOrgImports g tbl"
proof -
  let ?pm = "resolveProjectModule g w filePath"
  from assms obtain imp where imp: "imp \<in> set imps" by (cases imps) auto
  let ?c = "classifyImport g (Path imp) ?pm"
  have "assignGroup g ?pm imp \<in> set (filter (\<lambda>i. Group i = ?c) (map (assignGroup g ?pm) imps))"
    using imp by simp
  moreover have "set (lookupGroup tbl ?c) =
      set (filter (\<lambda>i. Group i = ?c) (map (assignGroup g ?pm) imps))"
    unfolding tbl_def lookupGroup_groupImports sortImportsInGroup_def by simp
  ultimately have "assignGroup g ?pm imp \<in> set (lookupGroup tbl ?c)" by (simp only:)
  then have ne: "lookupGroup tbl ?c \<noteq> []" by (metis empty_iff empty_set)
  from classifyImport_cases [of g "Path imp" ?pm] show ?thesis
  proof (elim disjE exE conjE)
    fix i assume "i < length (getOrgs g)" "?c = OrgGroupBase + int i"
    with ne have "hasOrgImports g tbl"
      by (auto simp: hasOrgImports_def list_ex_iff)
    then show ?thesis by simp
  qed (use ne in auto)
qed

lemma replaceImports_groupImports:
  fixes g :: "'d formatter" and w :: world and filePath :: string and f :: "'d File"
  assumes "imps \<noteq> []"
  defines "tbl \<equiv> groupImports g w imps filePath"
  shows "Decls (replaceImports g f tbl) =
     GenDeclImport (map newImportSpec
        (lookupGroup tbl StdGroup @ lookupGroup tbl ThirdPartyGroup
         @ concat (map (\<lambda>i. lookupGroup tbl (OrgGroupBase + int i)) [0..<length (getOrgs g)])
         @ lookupGroup tbl ProjectGroup))
     # filter (\<lambda>decl. \<not> isImportDecl decl) (Decls f)"
proof -
  have has: "length (lookupGroup tbl StdGroup) > 0
         \<or> length (lookupGroup tbl ThirdPartyGroup) > 0
         \<or> length (lookupGroup tbl ProjectGroup) > 0
         \<or> hasOrgImports g tbl"
    unfolding tbl_def using assms(1) by (rule hasImports_groupImports)
  have orgs: "foldl (\<lambda>specs i.
                (if 0 < length (lookupGroup tbl (OrgGroupBase + int i))
                 then addOrgImports specs (lookupGroup tbl (OrgGroupBase + int i)) else specs)) s js
      = s @ concat (map (\<lambda>i. map newImportSpec (lookupGroup tbl (OrgGroupBase + int i))) js)" for s js
    by (rule foldl_append_specs) (auto simp: Let_def tbl_def addOrgImports_group)
  have add: "(if length xs > 0 then addGroupImports s xs else s) = s @ map newImportSpec xs" for s xs
    by (simp add: addGroupImports_eq)
  show ?thesis
    using has by (simp add: replaceImports_def Let_def orgs add map_concat comp_def del: length_greater_0_conv)
qed

lemma contiguous_sorted:
  assumes "sorted_wrt (\<lambda>a b. ProjectName a < ProjectName b \<or> ProjectName a = ProjectName b \<and> Path a \<le> Path b) xs"
    and "i \<le> j" "j \<le> k" "k < length xs" "ProjectName (xs ! i) = ProjectName (xs ! k)"
  shows "ProjectName (xs ! j) = ProjectName (xs ! i)"
proof -
  have le: "ProjectName (xs ! a) \<le> ProjectName (xs ! b)" if "a \<le> b" "b < length xs" for a b
  proof (cases "a = b")
    case False
    with that have "a < b" by simp
    with assms(1) that(2)
    have "ProjectName (xs ! a) < ProjectName (xs ! b)
        \<or> ProjectName (xs ! a) = ProjectName (xs ! b) \<and> Path (xs ! a) \<le> Path (xs ! b)"
      by (simp add: sorted_wrt_iff_nth_less)
    then show ?thesis by auto
  qed simp
  from le [of i j] le [of j k] assms show ?thesis by simp
qed

section \<open>Facts about serialization\<close>

text \<open>
  The records of the table that \<open>groupImports\<close> builds for the file being processed carry
  the group that the classifier gives their path and, in an organization group, the index
  and the sub-project name that \<open>getOrgInfo\<close> gives it. A path that the extractor has
  trimmed is read back unchanged from the spec built for it. So the spacing test, which
  reads group and sub-project name from the path of a spec, reads the fields of the
  emitted records (\<open>spacing_by_record_fields\<close>).
\<close>

lemma resolveProjectModule_own_path:
  "resolveProjectModule g w (getFilePath g) = getCurrentProject g w"
  by (simp add: resolveProjectModule_def getCurrentProject_def Let_def)

lemma table_record_fields:
  assumes "r \<in> set (lookupGroup (groupImports g w imps (getFilePath g)) k)"
  shows "Group r = k
       \<and> classifyImport g (Path r) (getCurrentProject g w) = k
       \<and> (OrgGroupBase \<le> k \<longrightarrow>
            OrgIndex r = fst (getOrgInfo g (Path r)) \<and> ProjectName r = snd (getOrgInfo g (Path r)))"
proof -
  let ?pm = "getCurrentProject g w"
  from assms have "r \<in> set (filter (\<lambda>i. Group i = k) (map (assignGroup g ?pm) imps))"
    by (simp add: lookupGroup_groupImports sortImportsInGroup_def resolveProjectModule_own_path
        split: if_splits)
  then obtain imp where r: "r = assignGroup g ?pm imp" and k: "classifyImport g (Path imp) ?pm = k"
    by auto
  show ?thesis using r k org_assignGroup [of g imp ?pm] by auto
qed

lemma trim_ends_gen:
  "rev (dropWhile P (rev (dropWhile P x))) = []
   \<or> \<not> P (hd (rev (dropWhile P (rev (dropWhile P x)))))
     \<and> \<not> P (last (rev (dropWhile P (rev (dropWhile P x)))))"
proof (cases "dropWhile P (rev (dropWhile P x)) = []")
  case True
  then show ?thesis by simp
next
  case False
  define d where "d = dropWhile P x"
  define e where "e = dropWhile P (rev d)"
  from False have ne: "e \<noteq> []" by (simp add: e_def d_def)
  then have "\<not> P (hd e)" unfolding e_def by (rule hd_dropWhile)
  then have l: "\<not> P (last (rev e))" using ne by (simp add: last_rev)
  have "rev d = takeWhile P (rev d) @ e" by (simp add: e_def)
  then have "rev (rev d) = rev (takeWhile P (rev d) @ e)" by simp
  then have dd: "d = rev e @ rev (takeWhile P (rev d))" by simp
  with ne have dne: "d \<noteq> []" by auto
  then have "\<not> P (hd d)" unfolding d_def by (rule hd_dropWhile)
  moreover from dd ne have "hd d = hd (rev e)" by (metis hd_append2 rev_is_Nil_conv)
  ultimately have "\<not> P (hd (rev e))" by simp
  with l show ?thesis by (simp add: e_def d_def)
qed

lemma Trim_ends: "Trim x c = [] \<or> hd (Trim x c) \<noteq> c \<and> last (Trim x c) \<noteq> c"
  using trim_ends_gen [of "\<lambda>y. y = c" x] by (simp add: Trim_def)

lemma Trim_quoted:
  assumes "p = [] \<or> hd p \<noteq> c \<and> last p \<noteq> c"
  shows "Trim ([c] @ p @ [c]) c = p"
proof (cases "p = []")
  case True
  then show ?thesis by (simp add: Trim_def)
next
  case False
  with assms have h: "hd p \<noteq> c" and l: "last p \<noteq> c" by auto
  from False h have 1: "dropWhile (\<lambda>y. y = c) (p @ [c]) = p @ [c]"
    by (cases p) auto
  from False l have 2: "dropWhile (\<lambda>y. y = c) (rev p) = rev p"
    by (cases "rev p") (auto simp: last_rev [symmetric] simp del: last_rev)
  show ?thesis by (simp add: Trim_def 1 2)
qed

lemma Trim_newImportSpec:
  "Path r = Trim x quote \<Longrightarrow> Trim (SpecPath (newImportSpec r)) quote = Path r"
  using Trim_quoted [OF Trim_ends [of x quote]] by (simp add: newImportSpec_def)

lemma shouldAdd_iff:
  "shouldAddSpacingBetweenImports g w specs i \<longleftrightarrow>
     0 < i
     \<and> (classifyImport g (Trim (SpecPath (specs ! i)) quote) (getCurrentProject g w)
          \<noteq> classifyImport g (Trim (SpecPath (specs ! (i - 1))) quote) (getCurrentProject g w)
        \<or> OrgGroupBase \<le> classifyImport g (Trim (SpecPath (specs ! i)) quote) (getCurrentProject g w)
          \<and> OrgGroupBase
              \<le> classifyImport g (Trim (SpecPath (specs ! (i - 1))) quote) (getCurrentProject g w)
          \<and> snd (getOrgInfo g (Trim (SpecPath (specs ! i)) quote))
              \<noteq> snd (getOrgInfo g (Trim (SpecPath (specs ! (i - 1))) quote))
          \<and> snd (getOrgInfo g (Trim (SpecPath (specs ! i)) quote)) \<noteq> []
          \<and> snd (getOrgInfo g (Trim (SpecPath (specs ! (i - 1))) quote)) \<noteq> [])"
  unfolding shouldAddSpacingBetweenImports_def by (auto simp: Let_def)

lemma spacing_by_record_fields:
  assumes es: "\<forall>r\<in>set es. \<exists>k x. r \<in> set (lookupGroup (groupImports g w imps (getFilePath g)) k)
                               \<and> Path r = Trim x quote"
    and i: "0 < i" "i < length es"
  shows "shouldAddSpacingBetweenImports g w (map newImportSpec es) i \<longleftrightarrow>
           Group (es ! i) \<noteq> Group (es ! (i - 1))
           \<or> OrgGroupBase \<le> Group (es ! i) \<and> OrgGroupBase \<le> Group (es ! (i - 1))
             \<and> ProjectName (es ! i) \<noteq> ProjectName (es ! (i - 1))
             \<and> ProjectName (es ! i) \<noteq> [] \<and> ProjectName (es ! (i - 1)) \<noteq> []"
proof -
  have fields: "Trim (SpecPath (newImportSpec (es ! j))) quote = Path (es ! j)
      \<and> classifyImport g (Path (es ! j)) (getCurrentProject g w) = Group (es ! j)
      \<and> (OrgGroupBase \<le> Group (es ! j) \<longrightarrow>
            snd (getOrgInfo g (Path (es ! j))) = ProjectName (es ! j))" if "j < length es" for j
  proof -
    from that es obtain k x
      where r: "es ! j \<in> set (lookupGroup (groupImports g w imps (getFilePath g)) k)"
        and p: "Path (es ! j) = Trim x quote"
      by (meson nth_mem)
    from table_record_fields [OF r] Trim_newImportSpec [OF p] show ?thesis by auto
  qed
  from i have j: "i - 1 < length es" by simp
  let ?a = "es ! i" and ?b = "es ! (i - 1)"
  from fields [OF i(2)] fields [OF j]
  have ta: "Trim (SpecPath (map newImportSpec es ! i)) quote = Path ?a"
    and tb: "Trim (SpecPath (map newImportSpec es ! (i - 1))) quote = Path ?b"
    and ca: "classifyImport g (Path ?a) (getCurrentProject g w) = Group ?a"
    and cb: "classifyImport g (Path ?b) (getCurrentProject g w) = Group ?b"
    and sa: "OrgGroupBase \<le> Group ?a \<Longrightarrow> snd (getOrgInfo g (Path ?a)) = ProjectName ?a"
    and sb: "OrgGroupBase \<le> Group ?b \<Longrightarrow> snd (getOrgInfo g (Path ?b)) = ProjectName ?b"
    using i j by simp_all
  show ?thesis
  proof (cases "OrgGroupBase \<le> Group ?a \<and> OrgGroupBase \<le> Group ?b")
    case True
    with sa sb show ?thesis
      unfolding shouldAdd_iff ta tb ca cb using i(1) by simp
  next
    case False
    then show ?thesis
      unfolding shouldAdd_iff ta tb ca cb using i(1) by auto
  qed
qed

text \<open>
  The loop of \<open>formatFile\<close> over the printed lines only inserts: either no line begins
  with \<open>package\<close> and the lines are returned as they are, or an empty line and the
  import block are put after the first such line and nothing else changes. This is for an
  import block that could be formatted; the loop panics where formatting the block does.
\<close>

lemma insertImports_found [simp]: "insertImports g w d True ls = Some ls"
  by (induction ls) auto

lemma insertImports_frame:
  assumes block: "importBlock g w d = Some block"
  shows "insertImports g w d False ls = Some ls
   \<or> (\<exists>pre l post. ls = pre @ l # post
         \<and> (\<forall>x\<in>set pre. \<not> HasPrefix (TrimSpace g x) ''package '')
         \<and> HasPrefix (TrimSpace g l) ''package ''
         \<and> insertImports g w d False ls = Some (pre @ l # [] # block @ post))"
proof (induction ls)
  case Nil
  show ?case by simp
next
  case (Cons a ls)
  show ?case
  proof (cases "HasPrefix (TrimSpace g a) ''package ''")
    case True
    then have "a # ls = [] @ a # ls \<and> (\<forall>x\<in>set []. \<not> HasPrefix (TrimSpace g x) ''package '')
        \<and> HasPrefix (TrimSpace g a) ''package ''
        \<and> insertImports g w d False (a # ls) = Some ([] @ a # [] # block @ ls)"
      by (simp add: block)
    then show ?thesis by blast
  next
    case False
    from Cons show ?thesis
    proof
      assume "insertImports g w d False ls = Some ls"
      with False show ?thesis by simp
    next
      assume "\<exists>pre l post. ls = pre @ l # post
         \<and> (\<forall>x\<in>set pre. \<not> HasPrefix (TrimSpace g x) ''package '')
         \<and> HasPrefix (TrimSpace g l) ''package ''
         \<and> insertImports g w d False ls = Some (pre @ l # [] # block @ post)"
      then obtain pre l post where "ls = pre @ l # post"
        "\<forall>x\<in>set pre. \<not> HasPrefix (TrimSpace g x) ''package ''"
        "HasPrefix (TrimSpace g l) ''package ''"
        "insertImports g w d False ls = Some (pre @ l # [] # block @ post)"
        by blast
      with False have "a # ls = (a # pre) @ l # post
         \<and> (\<forall>x\<in>set (a # pre). \<not> HasPrefix (TrimSpace g x) ''package '')
         \<and> HasPrefix (TrimSpace g l) ''package ''
         \<and> insertImports g w d False (a # ls) = Some ((a # pre) @ l # [] # block @ post)"
        by simp
      then show ?thesis by blast
    qed
  qed
qed

text \<open>
  The loop over the entries of the import declaration, in closed form: it panics exactly
  when formatting one of the entries does (\<open>those\<close> is then \<open>None\<close>), and otherwise gives,
  entry after entry, one empty line where spacing is due and the entry's own line.
\<close>

lemma length_those: "those xs = Some ys \<Longrightarrow> length ys = length xs"
  by (induction xs arbitrary: ys) (auto split: option.splits)

lemma importSpecLoop_eq:
  "importSpecLoop g w specs js =
     map_option
       (\<lambda>ls. concat (map (\<lambda>k. (if js ! k > 0 \<and> shouldAddSpacingBetweenImports g w specs (js ! k)
                                then [[]] else []) @ [tab # ls ! k]) [0..<length js]))
       (those (map (\<lambda>i. formatImportSpec g (specs ! i)) js))"
proof (induction js)
  case Nil
  show ?case by simp
next
  case (Cons i js)
  show ?case
  proof (cases "formatImportSpec g (specs ! i)")
    case None
    then show ?thesis by simp
  next
    case (Some l)
    show ?thesis
    proof (cases "those (map (\<lambda>i. formatImportSpec g (specs ! i)) js)")
      case None
      with Some Cons show ?thesis by simp
    next
      case ls: (Some ls)
      have "[0..<length (i # js)] = 0 # map Suc [0..<length js]"
        by (simp add: upt_conv_Cons map_Suc_upt del: upt_Suc)
      then show ?thesis
        using Some ls Cons by (simp add: comp_def del: upt_Suc)
    qed
  qed
qed

lemma importSpecLines_eq:
  "importSpecLines g w specs =
     map_option
       (\<lambda>ls. concat (map (\<lambda>i. (if i > 0 \<and> shouldAddSpacingBetweenImports g w specs i
                                then [[]] else []) @ [tab # ls ! i]) [0..<length specs]))
       (those (map (formatImportSpec g) specs))"
proof -
  let ?n = "length specs"
  have 1: "map (\<lambda>i. formatImportSpec g (specs ! i)) [0..<?n] = map (formatImportSpec g) specs"
    by (rule nth_equalityI) simp_all
  have 2: "map (\<lambda>k. (if [0..<?n] ! k > 0 \<and> shouldAddSpacingBetweenImports g w specs ([0..<?n] ! k)
                        then [[]] else []) @ [tab # ls ! k]) [0..<length [0..<?n]]
      = map (\<lambda>i. (if i > 0 \<and> shouldAddSpacingBetweenImports g w specs i
                        then [[]] else []) @ [tab # ls ! i]) [0..<?n]" for ls
    by (rule nth_equalityI) simp_all
  show ?thesis
    unfolding importSpecLines_def importSpecLoop_eq 1 2 ..
qed

section \<open>Facts about processing\<close>

text \<open>
  The path that the formatter holds is overwritten by the batch before each file, so it
  plays no part in the runs of a batch.
\<close>

lemma fileRun_path [simp]:
  "fileRun (g\<lparr>config := (config g)\<lparr>FilePath := q\<rparr>\<rparr>) w p = fileRun g w p"
  by (simp add: fileRun_def)

lemma getInPlace_path [simp]:
  "getInPlace (g\<lparr>config := (config g)\<lparr>FilePath := q\<rparr>\<rparr>) = getInPlace g"
  by (simp add: getInPlace_def)

lemma afterFile_path [simp]:
  "afterFile (g\<lparr>config := (config g)\<lparr>FilePath := q\<rparr>\<rparr>) w p = afterFile g w p"
  by (simp add: afterFile_def split: run.splits option.splits)

lemma batchRuns_path [simp]:
  "batchRuns (g\<lparr>config := (config g)\<lparr>FilePath := q\<rparr>\<rparr>) w ps = batchRuns g w ps"
  by (induction ps arbitrary: w) simp_all

lemma batchWorld_path [simp]:
  "batchWorld (g\<lparr>config := (config g)\<lparr>FilePath := q\<rparr>\<rparr>) w ps = batchWorld g w ps"
  by (induction ps arbitrary: w) simp_all

lemma length_batchRuns [simp]: "length (batchRuns g w ps) = length ps"
  by (induction ps arbitrary: w) simp_all

text \<open>
  The loop of \<open>ProcessFiles\<close>: while no file makes the formatter panic, the loop goes
  through all the paths and counts the successes and the failures; the world it leaves
  is the one that the files left in turn. A panic in one file is a panic of the loop.
\<close>

lemma processLoop_returns:
  "\<forall>r\<in>set (batchRuns g w ps). \<not> panicked r \<Longrightarrow>
   processLoop g w pc ec ps =
     Returns (foldl (\<lambda>g p. g\<lparr>config := (config g)\<lparr>FilePath := p\<rparr>\<rparr>) g ps,
              pc + length (filter succeeded (batchRuns g w ps)),
              ec + length (filter failed (batchRuns g w ps)))
       (batchWorld g w ps)"
proof (induction ps arbitrary: g w pc ec)
  case Nil
  show ?case by simp
next
  case (Cons p ps)
  let ?g = "g\<lparr>config := (config g)\<lparr>FilePath := p\<rparr>\<rparr>"
  from Cons.prems have np: "\<not> panicked (fileRun g w p)"
    and rest: "\<forall>r\<in>set (batchRuns ?g (afterFile g w p) ps). \<not> panicked r"
    by simp_all
  note IH = Cons.IH [OF rest]
  from np obtain err w1 where run: "fileRun g w p = Returns err w1"
    by (cases "fileRun g w p") (auto simp: panicked_def)
  then have pf: "ProcessFileWithOutput ?g w False = Returns err w1"
    by (simp add: fileRun_def)
  show ?case
  proof (cases err)
    case None
    with run have aw: "afterFile g w p = (if getInPlace g then print w1 (ProcessedFiles p) else w1)"
      by (simp add: afterFile_def)
    from None run have c: "succeeded (fileRun g w p)" "\<not> failed (fileRun g w p)"
      by (simp_all add: succeeded_def failed_def)
    show ?thesis
      using IH [of "pc + 1" ec] pf None c aw by (simp add: Let_def)
  next
    case (Some e)
    with run have aw: "afterFile g w p = print w1 (ErrorProcessing p e)"
      by (simp add: afterFile_def)
    from Some run have c: "\<not> succeeded (fileRun g w p)" "failed (fileRun g w p)"
      by (simp_all add: succeeded_def failed_def)
    show ?thesis
      using IH [of pc "ec + 1"] pf Some c aw by (simp add: Let_def)
  qed
qed

lemma processLoop_panics:
  "\<exists>r\<in>set (batchRuns g w ps). panicked r \<Longrightarrow> panicked (processLoop g w pc ec ps)"
proof (induction ps arbitrary: g w pc ec)
  case Nil
  then show ?case by simp
next
  case (Cons p ps)
  let ?g = "g\<lparr>config := (config g)\<lparr>FilePath := p\<rparr>\<rparr>"
  show ?case
  proof (cases "fileRun g w p")
    case (Panics w1)
    then have "ProcessFileWithOutput ?g w False = Panics w1" by (simp add: fileRun_def)
    then show ?thesis by (simp add: panicked_def)
  next
    case (Returns err w1)
    then have pf: "ProcessFileWithOutput ?g w False = Returns err w1" by (simp add: fileRun_def)
    from Returns Cons.prems have "\<exists>r\<in>set (batchRuns ?g (afterFile g w p) ps). panicked r"
      by (simp add: panicked_def)
    note IH = Cons.IH [OF this]
    show ?thesis
    proof (cases err)
      case None
      with Returns have "afterFile g w p = (if getInPlace g then print w1 (ProcessedFiles p) else w1)"
        by (simp add: afterFile_def)
      with IH [of "pc + 1" ec] pf None show ?thesis by (simp add: Let_def)
    next
      case (Some e)
      with Returns have "afterFile g w p = print w1 (ErrorProcessing p e)"
        by (simp add: afterFile_def)
      with IH [of pc "ec + 1"] pf Some show ?thesis by (simp add: Let_def)
    qed
  qed
qed

lemma count_runs:
  "\<forall>r\<in>set rs. \<not> panicked r \<Longrightarrow>
   length (filter succeeded rs) + length (filter failed rs) = length rs"
proof (induction rs)
  case Nil
  show ?case by simp
next
  case (Cons r rs)
  then have "succeeded r \<noteq> failed r"
    by (cases r) (auto simp: succeeded_def failed_def panicked_def split: option.splits)
  with Cons show ?case by auto
qed

text \<open>
  Where no file makes the formatter panic, the batch does what its loop is written to
  do: every path is processed, the counters are the numbers of successes and of
  failures, the world is the one the files left in turn, with the two counts printed, and
  an error is returned exactly when a file failed.
\<close>

lemma ProcessFiles_returns:
  fixes g :: "'d formatter" and w :: world and ps :: "string list"
  defines "rs \<equiv> batchRuns g w ps"
  defines "ok \<equiv> length (filter succeeded rs)"
  defines "bad \<equiv> length (filter failed rs)"
  assumes np: "\<forall>r\<in>set (batchRuns g w ps). \<not> panicked r"
  shows "ProcessFiles g w ps =
           Returns (if bad > 0 then Some (FilesFailedToProcess bad) else None,
                    foldl (\<lambda>g p. g\<lparr>config := (config g)\<lparr>FilePath := p\<rparr>\<rparr>) g ps)
             ((batchWorld g w ps)
                \<lparr>stdout := stdout (batchWorld g w ps) @ [ProcessedCount ok]
                   @ (if bad > 0 then [ErrorCount bad] else []) @ [EndOfLine]\<rparr>)"
    and "ok + bad = length ps"
    and "bad > 0 \<longleftrightarrow> (\<exists>r\<in>set rs. failed r)"
proof -
  show "ProcessFiles g w ps =
           Returns (if bad > 0 then Some (FilesFailedToProcess bad) else None,
                    foldl (\<lambda>g p. g\<lparr>config := (config g)\<lparr>FilePath := p\<rparr>\<rparr>) g ps)
             ((batchWorld g w ps)
                \<lparr>stdout := stdout (batchWorld g w ps) @ [ProcessedCount ok]
                   @ (if bad > 0 then [ErrorCount bad] else []) @ [EndOfLine]\<rparr>)"
    unfolding ProcessFiles_def processLoop_returns [OF np] ok_def bad_def rs_def
    by (simp add: print_def Let_def)
  from count_runs [OF np] show "ok + bad = length ps"
    by (simp add: ok_def bad_def rs_def)
  show "bad > 0 \<longleftrightarrow> (\<exists>r\<in>set rs. failed r)"
    by (simp add: bad_def filter_empty_conv)
qed

text \<open>A panic in processing one file is a panic of the batch.\<close>

lemma ProcessFiles_panics:
  "\<exists>r\<in>set (batchRuns g w ps). panicked r \<Longrightarrow> panicked (ProcessFiles g w ps)"
  using processLoop_panics [of g w ps 0 0]
  by (cases "processLoop g w 0 0 ps") (auto simp: ProcessFiles_def panicked_def)

text \<open>
  With \<open>verbose\<close> off nothing is printed and nothing written before the panic: the world
  at the panic is the one in which the file was started. A batch whose first file panics
  ends there, whatever the other paths are.
\<close>

lemma fileRun_panics_world:
  "fileRun g w p = Panics w' \<Longrightarrow> w' = w"
  by (auto simp: fileRun_def ProcessFileWithOutput_def Let_def WriteFile_def
           split: sum.splits option.splits if_splits prod.splits)

lemma ProcessFiles_first_panics:
  assumes "panicked (fileRun g w p)"
  shows "ProcessFiles g w (p # ps) = Panics w"
proof -
  from assms obtain w' where r: "fileRun g w p = Panics w'"
    by (cases "fileRun g w p") (auto simp: panicked_def)
  with fileRun_panics_world have "fileRun g w p = Panics w" by blast
  then show ?thesis by (simp add: ProcessFiles_def fileRun_def)
qed

section \<open>Claims about the classifier\<close>

text \<open>
  C2. The claim: with no project prefix known (the project module is the empty string)
  an import that is neither standard nor under an organization prefix is classified
  ThirdParty. The code tests \<open>strings.HasPrefix(importPath, projectModule)\<close> with no
  guard for the empty module, and the empty string is a prefix of every path. For the
  file \<open>/work/main.go\<close>, with no \<open>go.mod\<close> above it, no \<open>/src/\<close> in its path and no
  project given, the project module resolves to the empty string; the import
  \<open>github.com/external/lib\<close>, which is not in the standard table and begins with neither
  configured organization, is put in the Project group, and so is every other import
  outside the standard table: the ThirdParty group and the organization groups of the
  table that \<open>groupImports\<close> builds are empty.
\<close>

theorem C2_empty_project_module_gives_Project:
  "resolveProjectModule unresolved_formatter example_world ''/work/main.go'' = []
   \<and> \<not> isStdImport unresolved_formatter ''github.com/external/lib''
   \<and> getOrgs unresolved_formatter = [''github.com/myorg'', ''gitlab.com/anotherorg'']
   \<and> \<not> HasPrefix ''github.com/external/lib'' ''github.com/myorg''
   \<and> \<not> HasPrefix ''github.com/external/lib'' ''gitlab.com/anotherorg''
   \<and> classifyImport unresolved_formatter ''github.com/external/lib'' [] = ProjectGroup
   \<and> ProjectGroup \<noteq> ThirdPartyGroup
   \<and> map (\<lambda>k. map Path (lookupGroup
               (groupImports unresolved_formatter example_world example_imports ''/work/main.go'') k))
         [StdGroup, ThirdPartyGroup, OrgGroupBase + 0, OrgGroupBase + 1, ProjectGroup]
       = [[''fmt'', ''strings''], [], [], [],
          [''github.com/external/lib'', ''github.com/myorg/project1/a'',
           ''github.com/myorg/project2/x'', ''github.com/test/project/internal'']]"
  by code_simp

text \<open>
  C3, as stated, fails: the project test is a plain string-prefix test. The path
  \<open>github.com/test/projectextra\<close> is classified Project for the project prefix
  \<open>github.com/test/project\<close>, although it neither equals the prefix nor continues it
  with a path separator.
\<close>

theorem C3_counterexample:
  "\<not> isStdImport example_formatter ''github.com/test/projectextra''
   \<and> classifyImport example_formatter ''github.com/test/projectextra''
        ''github.com/test/project'' = ProjectGroup
   \<and> \<not> segment_prefix ''github.com/test/project'' ''github.com/test/projectextra''"
  by (simp add: classifyImport_def isStdImport_def example_formatter_def example_std_def
      segment_prefix_def HasPrefix_def)

text \<open>
  C3, amended: for a path outside the standard table and a non-empty project prefix,
  \<open>classifyImport\<close> answers Project exactly when the project prefix is a plain string
  prefix of the path (the path is the prefix followed by any bytes at all). The
  organization list plays no part: the project test comes before the organization scan.
\<close>

theorem C3_project_is_plain_prefix:
  assumes "\<not> isStdImport g importPath" and "projectModule \<noteq> []"
  shows "classifyImport g importPath projectModule = ProjectGroup
         \<longleftrightarrow> (\<exists>rest. importPath = projectModule @ rest)"
  using assms by (auto simp: classifyImport_def classifyOrgs_not_Project HasPrefix_iff)

theorem C3_project_is_plain_prefix_witness:
  "\<not> isStdImport overlap_formatter ''github.com/myorg/project1''
   \<and> ''github.com/myorg'' \<noteq> []
   \<and> classifyImport overlap_formatter ''github.com/myorg/project1'' ''github.com/myorg''
       = ProjectGroup"
proof -
  have std: "\<not> isStdImport overlap_formatter ''github.com/myorg/project1''"
    by (simp add: isStdImport_def overlap_formatter_def example_std_def)
  have ne: "''github.com/myorg'' \<noteq> []" by simp
  have "\<exists>rest. ''github.com/myorg/project1'' = ''github.com/myorg'' @ rest" by simp
  with C3_project_is_plain_prefix [OF std ne] std show ?thesis by simp
qed

text \<open>
  C10, as stated, fails for a prefix that is not the first one to match: the organization
  scan stops at the first configured prefix that is a string prefix of the path. With the
  organizations \<open>github.com/myorg\<close> and \<open>github.com/myorg-labs\<close>, in this order, the
  path \<open>github.com/myorg-labs/tool\<close> begins with the second prefix and is assigned to
  the group of the first.
\<close>

theorem C10_counterexample:
  "getOrgs overlap_formatter ! 1 = ''github.com/myorg-labs''
   \<and> HasPrefix ''github.com/myorg-labs/tool'' ''github.com/myorg-labs''
   \<and> \<not> isStdImport overlap_formatter ''github.com/myorg-labs/tool''
   \<and> \<not> HasPrefix ''github.com/myorg-labs/tool'' ''github.com/test/project''
   \<and> classifyImport overlap_formatter ''github.com/myorg-labs/tool''
        ''github.com/test/project'' = OrgGroupBase + 0
   \<and> OrgGroupBase + 0 \<noteq> OrgGroupBase + 1
   \<and> getOrgInfo overlap_formatter ''github.com/myorg-labs/tool'' = (0, ''-labs'')"
  by (simp add: classifyImport_def isStdImport_def getOrgs_def getOrgInfo_def
      overlap_formatter_def example_std_def HasPrefix_def TrimPrefix_def
      hd_Split_char [symmetric] OrgGroupBase_def) code_simp

text \<open>
  C10, amended: organization matching is a plain string-prefix test in both functions.
  A path outside the standard table and not under the project prefix, made of the
  \<open>i\<close>-th organization prefix followed by any bytes \<open>rest\<close> (a path separator or not),
  is assigned to group \<open>OrgGroupBase + i\<close> when no earlier configured prefix is a string
  prefix of it, and \<open>getOrgInfo\<close> gives the index \<open>i\<close> and, as sub-project name, the first
  segment of \<open>rest\<close> after at most one leading separator is removed.
\<close>

theorem C10_org_is_plain_prefix:
  assumes "i < length (getOrgs g)"
    and "importPath = getOrgs g ! i @ rest"
    and "\<forall>j<i. \<not> HasPrefix importPath (getOrgs g ! j)"
    and "\<not> isStdImport g importPath"
    and "\<not> HasPrefix importPath projectModule"
  shows "classifyImport g importPath projectModule = OrgGroupBase + int i
         \<and> getOrgInfo g importPath =
             (int i, takeWhile (\<lambda>c. c \<noteq> CHR ''/'') (TrimPrefix rest ''/''))"
proof -
  have pre: "HasPrefix importPath (getOrgs g ! i)"
    using assms(2) by simp
  have "classifyOrgs importPath (getOrgs g) 0 = OrgGroupBase + 0 + int i"
    using assms(1) pre assms(3) by (rule classifyOrgs_first)
  moreover have "getOrgInfoFrom importPath (getOrgs g) 0 =
      (0 + int i,
       takeWhile (\<lambda>c. c \<noteq> CHR ''/'')
         (TrimPrefix (TrimPrefix importPath (getOrgs g ! i)) ''/''))"
    using assms(1) pre assms(3) by (rule getOrgInfoFrom_first)
  ultimately show ?thesis
    using assms(2,4,5) by (simp add: classifyImport_def getOrgInfo_def)
qed

theorem C10_org_is_plain_prefix_witness:
  "\<not> HasPrefix ''gitlab.com/anotherorgextra/lib'' (getOrgs example_formatter ! 0)
   \<and> \<not> isStdImport example_formatter ''gitlab.com/anotherorgextra/lib''
   \<and> \<not> HasPrefix ''gitlab.com/anotherorgextra/lib'' ''github.com/test/project''
   \<and> classifyImport example_formatter ''gitlab.com/anotherorgextra/lib''
        ''github.com/test/project'' = OrgGroupBase + 1
   \<and> getOrgInfo example_formatter ''gitlab.com/anotherorgextra/lib'' = (1, ''extra'')"
proof -
  have orgs: "getOrgs example_formatter = [''github.com/myorg'', ''gitlab.com/anotherorg'']"
    by (simp add: getOrgs_def example_formatter_def)
  have 1: "(1::nat) < length (getOrgs example_formatter)"
    by (simp add: orgs)
  have 2: "''gitlab.com/anotherorgextra/lib'' = getOrgs example_formatter ! 1 @ ''extra/lib''"
    by (simp add: orgs)
  have 0: "\<not> HasPrefix ''gitlab.com/anotherorgextra/lib'' (getOrgs example_formatter ! 0)"
    by (simp add: orgs HasPrefix_def)
  then have 3: "\<forall>j<(1::nat).
      \<not> HasPrefix ''gitlab.com/anotherorgextra/lib'' (getOrgs example_formatter ! j)"
    by simp
  have 4: "\<not> isStdImport example_formatter ''gitlab.com/anotherorgextra/lib''"
    by (simp add: isStdImport_def example_formatter_def example_std_def)
  have 5: "\<not> HasPrefix ''gitlab.com/anotherorgextra/lib'' ''github.com/test/project''"
    by (simp add: HasPrefix_def)
  show ?thesis
    using C10_org_is_plain_prefix [OF 1 2 3 4 5] 0 4 5
    by (simp add: TrimPrefix_def HasPrefix_def)
qed

section \<open>Claims about the extractor\<close>

text \<open>
  C7. The records that \<open>extractImports\<close> returns have pairwise distinct paths, their
  paths are exactly the paths of the parsed import list, and the alias and the comment
  of each record are those of the first spec of the list with that path: a later spec
  with the same path, whatever its alias or comment, leaves no trace.
\<close>

theorem C7_first_occurrence_wins:
  "distinct (map Path (extractImports g f))
   \<and> Path ` set (extractImports g f) = (\<lambda>s. Trim (SpecPath s) quote) ` set (Imports f)
   \<and> (\<forall>r\<in>set (extractImports g f).
        \<exists>s. find (\<lambda>s. Trim (SpecPath s) quote = Path r) (Imports f) = Some s
          \<and> Name r = (case SpecName s of Some n \<Rightarrow> n | None \<Rightarrow> [])
          \<and> Comment r = (case SpecComment s of Some c \<Rightarrow> Text g c | None \<Rightarrow> []))"
proof (intro conjI ballI)
  show "distinct (map Path (extractImports g f))"
    unfolding extractImports_def by (rule extractLoop_distinct)
  show "Path ` set (extractImports g f) = (\<lambda>s. Trim (SpecPath s) quote) ` set (Imports f)"
    unfolding extractImports_def extractLoop_paths by simp
  fix r assume "r \<in> set (extractImports g f)"
  then show "\<exists>s. find (\<lambda>s. Trim (SpecPath s) quote = Path r) (Imports f) = Some s
          \<and> Name r = (case SpecName s of Some n \<Rightarrow> n | None \<Rightarrow> [])
          \<and> Comment r = (case SpecComment s of Some c \<Rightarrow> Text g c | None \<Rightarrow> [])"
    unfolding extractImports_def by (rule extractLoop_first)
qed

theorem C7_first_occurrence_wins_witness:
  "extractImports example_formatter duplicate_file =
     [\<lparr>Name = [], Path = ''fmt'', Comment = ''first'' @ newline, Group = 0, OrgIndex = 0,
       ProjectName = []\<rparr>,
      \<lparr>Name = ''errors'', Path = ''github.com/pkg/errors'', Comment = [], Group = 0,
       OrgIndex = 0, ProjectName = []\<rparr>]
   \<and> find (\<lambda>s. Trim (SpecPath s) quote = ''fmt'') (Imports duplicate_file)
       = Some \<lparr>SpecName = None, SpecPath = [quote] @ ''fmt'' @ [quote],
               SpecComment = Some [''// first'']\<rparr>
   \<and> (\<exists>r s. r \<in> set (extractImports example_formatter duplicate_file)
        \<and> Path r = ''fmt''
        \<and> find (\<lambda>s. Trim (SpecPath s) quote = Path r) (Imports duplicate_file) = Some s
        \<and> Name r = (case SpecName s of Some n \<Rightarrow> n | None \<Rightarrow> [])
        \<and> Comment r = (case SpecComment s of Some c \<Rightarrow> Text example_formatter c | None \<Rightarrow> []))"
proof -
  let ?r = "\<lparr>Name = [], Path = ''fmt'', Comment = ''first'' @ newline, Group = 0, OrgIndex = 0,
       ProjectName = []\<rparr>"
  have run: "extractImports example_formatter duplicate_file =
     [?r,
      \<lparr>Name = ''errors'', Path = ''github.com/pkg/errors'', Comment = [], Group = 0,
       OrgIndex = 0, ProjectName = []\<rparr>]"
    by code_simp
  have first: "find (\<lambda>s. Trim (SpecPath s) quote = ''fmt'') (Imports duplicate_file)
       = Some \<lparr>SpecName = None, SpecPath = [quote] @ ''fmt'' @ [quote],
               SpecComment = Some [''// first'']\<rparr>"
    by code_simp
  have mem: "?r \<in> set (extractImports example_formatter duplicate_file)"
    unfolding run by simp
  from C7_first_occurrence_wins [of example_formatter duplicate_file] mem
  have "\<exists>s. find (\<lambda>s. Trim (SpecPath s) quote = Path ?r) (Imports duplicate_file) = Some s
          \<and> Name ?r = (case SpecName s of Some n \<Rightarrow> n | None \<Rightarrow> [])
          \<and> Comment ?r = (case SpecComment s of Some c \<Rightarrow> Text example_formatter c | None \<Rightarrow> [])"
    by blast
  with mem have "\<exists>r s. r \<in> set (extractImports example_formatter duplicate_file)
        \<and> Path r = ''fmt''
        \<and> find (\<lambda>s. Trim (SpecPath s) quote = Path r) (Imports duplicate_file) = Some s
        \<and> Name r = (case SpecName s of Some n \<Rightarrow> n | None \<Rightarrow> [])
        \<and> Comment r = (case SpecComment s of Some c \<Rightarrow> Text example_formatter c | None \<Rightarrow> [])"
    by (intro exI [of _ ?r]) simp
  with run first show ?thesis by blast
qed

section \<open>Claims about the re-emitter\<close>

text \<open>
  C4. For a non-empty list of import records, grouped and sorted by \<open>groupImports\<close>,
  \<open>replaceImports\<close> leaves one import declaration, placed first, before the other
  declarations of the file in their order. Its entries are the Standard records sorted
  by path, the ThirdParty records sorted by path, one list for each configured
  organization in configured order, sorted by sub-project name and then by path (so that
  the records of one sub-project are contiguous), and the Project records sorted by path.
  Each list holds exactly the records that the classifier put in its group; an empty
  list adds nothing.
\<close>

theorem C4_emission_order:
  fixes g :: "'d formatter" and w :: world and filePath :: string and f :: "'d File"
  assumes "imps \<noteq> []"
  defines "tbl \<equiv> groupImports g w imps filePath"
  defines "members \<equiv> \<lambda>k. filter (\<lambda>i. Group i = k)
                              (map (assignGroup g (resolveProjectModule g w filePath)) imps)"
  defines "bySubProject \<equiv> \<lambda>a b. ProjectName a < ProjectName b
                              \<or> ProjectName a = ProjectName b \<and> Path a \<le> Path b"
  shows "\<exists>S T Os P.
           Decls (replaceImports g f tbl) =
             GenDeclImport (map newImportSpec (S @ T @ concat Os @ P))
             # filter (\<lambda>decl. \<not> isImportDecl decl) (Decls f)
         \<and> mset S = mset (members StdGroup) \<and> sorted (map Path S)
         \<and> mset T = mset (members ThirdPartyGroup) \<and> sorted (map Path T)
         \<and> length Os = length (getOrgs g)
         \<and> (\<forall>n<length (getOrgs g).
               mset (Os ! n) = mset (members (OrgGroupBase + int n))
               \<and> sorted_wrt bySubProject (Os ! n)
               \<and> (\<forall>i j k. i \<le> j \<and> j \<le> k \<and> k < length (Os ! n)
                     \<and> ProjectName (Os ! n ! i) = ProjectName (Os ! n ! k)
                     \<longrightarrow> ProjectName (Os ! n ! j) = ProjectName (Os ! n ! i)))
         \<and> mset P = mset (members ProjectGroup) \<and> sorted (map Path P)"
proof -
  let ?S = "lookupGroup tbl StdGroup" and ?T = "lookupGroup tbl ThirdPartyGroup"
  let ?Os = "map (\<lambda>i. lookupGroup tbl (OrgGroupBase + int i)) [0..<length (getOrgs g)]"
  let ?P = "lookupGroup tbl ProjectGroup"
  have decls: "Decls (replaceImports g f tbl) =
      GenDeclImport (map newImportSpec (?S @ ?T @ concat ?Os @ ?P))
      # filter (\<lambda>decl. \<not> isImportDecl decl) (Decls f)"
    unfolding tbl_def using assms(1) by (rule replaceImports_groupImports)
  have small: "mset (lookupGroup tbl k) = mset (members k) \<and> sorted (map Path (lookupGroup tbl k))"
    if "k < OrgGroupBase" for k
    unfolding tbl_def members_def lookup_small_groups [OF that]
    by (simp add: sorted_lessPath)
  have org: "mset (lookupGroup tbl (OrgGroupBase + int n)) = mset (members (OrgGroupBase + int n))
      \<and> sorted_wrt bySubProject (lookupGroup tbl (OrgGroupBase + int n))" for n
    unfolding tbl_def members_def lookup_org_groups bySubProject_def
    by (simp add: sorted_lessOrg)
  have cont: "ProjectName (lookupGroup tbl (OrgGroupBase + int n) ! j)
      = ProjectName (lookupGroup tbl (OrgGroupBase + int n) ! i)"
    if "i \<le> j" "j \<le> k" "k < length (lookupGroup tbl (OrgGroupBase + int n))"
      "ProjectName (lookupGroup tbl (OrgGroupBase + int n) ! i)
       = ProjectName (lookupGroup tbl (OrgGroupBase + int n) ! k)" for n i j k
    using org [of n] that unfolding bySubProject_def by (blast intro: contiguous_sorted)
  have S: "mset ?S = mset (members StdGroup) \<and> sorted (map Path ?S)"
    by (rule small) (simp add: StdGroup_def OrgGroupBase_def)
  have T: "mset ?T = mset (members ThirdPartyGroup) \<and> sorted (map Path ?T)"
    by (rule small) (simp add: ThirdPartyGroup_def OrgGroupBase_def)
  have P: "mset ?P = mset (members ProjectGroup) \<and> sorted (map Path ?P)"
    by (rule small) (simp add: ProjectGroup_def OrgGroupBase_def)
  have Os: "\<forall>n<length (getOrgs g).
      mset (?Os ! n) = mset (members (OrgGroupBase + int n))
      \<and> sorted_wrt bySubProject (?Os ! n)
      \<and> (\<forall>i j k. i \<le> j \<and> j \<le> k \<and> k < length (?Os ! n)
            \<and> ProjectName (?Os ! n ! i) = ProjectName (?Os ! n ! k)
            \<longrightarrow> ProjectName (?Os ! n ! j) = ProjectName (?Os ! n ! i))"
  proof (intro allI impI conjI)
    fix n assume n: "n < length (getOrgs g)"
    then have nth: "?Os ! n = lookupGroup tbl (OrgGroupBase + int n)" by simp
    show "mset (?Os ! n) = mset (members (OrgGroupBase + int n))"
      and "sorted_wrt bySubProject (?Os ! n)"
      unfolding nth using org [of n] by simp_all
    fix i j k
    assume "i \<le> j \<and> j \<le> k \<and> k < length (?Os ! n)
        \<and> ProjectName (?Os ! n ! i) = ProjectName (?Os ! n ! k)"
    then show "ProjectName (?Os ! n ! j) = ProjectName (?Os ! n ! i)"
      unfolding nth by (blast intro: cont)
  qed
  have len: "length ?Os = length (getOrgs g)" by simp
  from decls S T len Os P show ?thesis by blast
qed

theorem C4_emission_order_witness:
  "example_imports \<noteq> []
   \<and> (\<exists>S T Os P.
           Decls (replaceImports example_formatter example_file
                    (groupImports example_formatter example_world example_imports ''/work/main.go'')) =
             GenDeclImport (map newImportSpec (S @ T @ concat Os @ P))
             # filter (\<lambda>decl. \<not> isImportDecl decl) (Decls example_file)
         \<and> mset S = mset (filter (\<lambda>i. Group i = StdGroup)
              (map (assignGroup example_formatter
                      (resolveProjectModule example_formatter example_world ''/work/main.go''))
                 example_imports))
         \<and> sorted (map Path S)
         \<and> length Os = length (getOrgs example_formatter)
         \<and> sorted (map Path P))
   \<and> map (\<lambda>decl. case decl of
                    GenDeclImport specs \<Rightarrow> map (\<lambda>s. Trim (SpecPath s) quote) specs
                  | OtherDecl _ \<Rightarrow> [])
         (Decls (replaceImports example_formatter example_file
                   (groupImports example_formatter example_world example_imports ''/work/main.go'')))
       = [[''fmt'', ''strings'', ''github.com/external/lib'', ''github.com/myorg/project1/a'',
           ''github.com/myorg/project2/x'', ''github.com/test/project/internal''], []]"
proof -
  have ne: "example_imports \<noteq> []"
    by (simp add: example_imports_def)
  have run: "map (\<lambda>decl. case decl of
                    GenDeclImport specs \<Rightarrow> map (\<lambda>s. Trim (SpecPath s) quote) specs
                  | OtherDecl _ \<Rightarrow> [])
         (Decls (replaceImports example_formatter example_file
                   (groupImports example_formatter example_world example_imports ''/work/main.go'')))
       = [[''fmt'', ''strings'', ''github.com/external/lib'', ''github.com/myorg/project1/a'',
           ''github.com/myorg/project2/x'', ''github.com/test/project/internal''], []]"
    by code_simp
  from C4_emission_order [where g = example_formatter and w = example_world
      and filePath = "''/work/main.go''" and f = example_file, OF ne]
  obtain S T Os P where
    "Decls (replaceImports example_formatter example_file
                    (groupImports example_formatter example_world example_imports ''/work/main.go'')) =
             GenDeclImport (map newImportSpec (S @ T @ concat Os @ P))
             # filter (\<lambda>decl. \<not> isImportDecl decl) (Decls example_file)"
    "mset S = mset (filter (\<lambda>i. Group i = StdGroup)
              (map (assignGroup example_formatter
                      (resolveProjectModule example_formatter example_world ''/work/main.go''))
                 example_imports))"
    "sorted (map Path S)" "length Os = length (getOrgs example_formatter)" "sorted (map Path P)"
    by blast
  with ne run show ?thesis by blast
qed

text \<open>
  C5. The group of an emitted entry is what the classifier answers for its path, its
  sub-project name what \<open>getOrgInfo\<close> answers; this is how
  \<open>shouldAddSpacingBetweenImports\<close> reads them, and for the entries that the pipeline emits
  they are the fields of the records (\<open>spacing_by_record_fields\<close> above). Spacing is due at index \<open>i\<close> exactly
  when \<open>i > 0\<close> and either the groups of the entries \<open>i - 1\<close> and \<open>i\<close> differ, or both
  are organization groups and the two sub-project names differ and are both non-empty.
  The lines of the import block are, entry after entry, one empty line where spacing is
  due and the entry's own line, which begins with a tab and is never empty;
  \<open>importLines\<close> are the entries as \<open>formatImportSpec\<close> gives them, and there are no lines
  at all (\<open>None\<close>) exactly when formatting one of the entries panics.
\<close>

theorem C5_blank_line_rule:
  fixes g :: "'d formatter" and w :: world and specs :: "ImportSpec list"
  defines "grp \<equiv> \<lambda>i. classifyImport g (Trim (SpecPath (specs ! i)) quote) (getCurrentProject g w)"
  defines "sub \<equiv> \<lambda>i. snd (getOrgInfo g (Trim (SpecPath (specs ! i)) quote))"
  defines "blank \<equiv> \<lambda>i. 0 < i \<and> (grp i \<noteq> grp (i - 1)
              \<or> (OrgGroupBase \<le> grp i \<and> OrgGroupBase \<le> grp (i - 1)
                  \<and> sub i \<noteq> sub (i - 1) \<and> sub i \<noteq> [] \<and> sub (i - 1) \<noteq> []))"
  shows "(\<forall>i. shouldAddSpacingBetweenImports g w specs i \<longleftrightarrow> blank i)
       \<and> importSpecLines g w specs =
           map_option
             (\<lambda>importLines.
                concat (map (\<lambda>i. (if blank i then [[]] else []) @ [tab # importLines ! i])
                          [0..<length specs]))
             (those (map (formatImportSpec g) specs))"
proof -
  have 1: "shouldAddSpacingBetweenImports g w specs i \<longleftrightarrow> blank i" for i
    unfolding shouldAddSpacingBetweenImports_def blank_def grp_def sub_def
    by (auto simp: Let_def)
  have 2: "(0 < i \<and> blank i) = blank i" for i
    by (auto simp: blank_def)
  show ?thesis
    by (simp add: importSpecLines_eq 1 2)
qed

theorem C5_blank_line_rule_witness:
  "those (map (formatImportSpec example_formatter) example_specs) =
     Some (map (\<lambda>p. [quote] @ p @ [quote])
       [''fmt'', ''strings'', ''github.com/external/lib'', ''github.com/myorg/project1/a'',
        ''github.com/myorg/project1/b'', ''github.com/myorg/project2/x'', ''github.com/myorg'',
        ''github.com/test/project/internal''])
   \<and> importSpecLines example_formatter example_world example_specs =
     Some [tab # [quote] @ ''fmt'' @ [quote],
      tab # [quote] @ ''strings'' @ [quote],
      [],
      tab # [quote] @ ''github.com/external/lib'' @ [quote],
      [],
      tab # [quote] @ ''github.com/myorg/project1/a'' @ [quote],
      tab # [quote] @ ''github.com/myorg/project1/b'' @ [quote],
      [],
      tab # [quote] @ ''github.com/myorg/project2/x'' @ [quote],
      tab # [quote] @ ''github.com/myorg'' @ [quote],
      [],
      tab # [quote] @ ''github.com/test/project/internal'' @ [quote]]"
proof -
  let ?g = example_formatter and ?w = example_world and ?specs = example_specs
  let ?grp = "\<lambda>i. classifyImport ?g (Trim (SpecPath (?specs ! i)) quote) (getCurrentProject ?g ?w)"
  let ?sub = "\<lambda>i. snd (getOrgInfo ?g (Trim (SpecPath (?specs ! i)) quote))"
  let ?lines = "map (\<lambda>p. [quote] @ p @ [quote])
       [''fmt'', ''strings'', ''github.com/external/lib'', ''github.com/myorg/project1/a'',
        ''github.com/myorg/project1/b'', ''github.com/myorg/project2/x'', ''github.com/myorg'',
        ''github.com/test/project/internal'']"
  have fmt: "those (map (formatImportSpec ?g) ?specs) = Some ?lines"
    by code_simp
  have "importSpecLines ?g ?w ?specs =
      map_option
        (\<lambda>importLines.
          concat (map (\<lambda>i. (if 0 < i \<and> (?grp i \<noteq> ?grp (i - 1)
              \<or> (OrgGroupBase \<le> ?grp i \<and> OrgGroupBase \<le> ?grp (i - 1)
                  \<and> ?sub i \<noteq> ?sub (i - 1) \<and> ?sub i \<noteq> [] \<and> ?sub (i - 1) \<noteq> []))
                          then [[]] else []) @ [tab # importLines ! i])
                [0..<length ?specs]))
        (those (map (formatImportSpec ?g) ?specs))"
    using C5_blank_line_rule [of ?g ?w ?specs] by blast
  also have "\<dots> = Some [tab # [quote] @ ''fmt'' @ [quote],
      tab # [quote] @ ''strings'' @ [quote],
      [],
      tab # [quote] @ ''github.com/external/lib'' @ [quote],
      [],
      tab # [quote] @ ''github.com/myorg/project1/a'' @ [quote],
      tab # [quote] @ ''github.com/myorg/project1/b'' @ [quote],
      [],
      tab # [quote] @ ''github.com/myorg/project2/x'' @ [quote],
      tab # [quote] @ ''github.com/myorg'' @ [quote],
      [],
      tab # [quote] @ ''github.com/test/project/internal'' @ [quote]]"
    unfolding fmt by code_simp
  finally show ?thesis using fmt by simp
qed

section \<open>Claims about the driver\<close>

text \<open>
  C8. For a file that can be read and parsed and has no import, \<open>ProcessFileWithOutput\<close>
  returns, with success, and writes nothing: the files are what they were, in place or
  not. What it prints is the line naming the current project when \<open>verbose\<close> is on and
  then, when not in place, the source text as it was read; no import declaration and no
  blank line are added to it.
\<close>

theorem C8_no_imports_untouched:
  assumes "files w (getFilePath g) = Some src"
    and "ParseFile g (getFilePath g) src = Inr tree"
    and "Imports tree = []"
  shows "ProcessFileWithOutput g w verbose =
           Returns None
            (w\<lparr>stdout := stdout w
                 @ (if verbose then [CurrentProjectOutput (getCurrentProject g w)] else [])
                 @ (if verbose \<and> \<not> getInPlace g then [SourceText src] else [])\<rparr>)
         \<and> (\<exists>w'. ProcessFileWithOutput g w verbose = Returns None w' \<and> files w' = files w)"
  using assms by (simp add: ProcessFileWithOutput_def ReadFile_def print_def Let_def)

theorem C8_no_imports_untouched_witness:
  "files batch_world (getFilePath plain_formatter) = Some plain_source
   \<and> ParseFile plain_formatter (getFilePath plain_formatter) plain_source = Inr plain_tree
   \<and> Imports plain_tree = []
   \<and> ProcessFileWithOutput plain_formatter batch_world True =
       Returns None
         (batch_world\<lparr>stdout := [CurrentProjectOutput ''github.com/test/project'',
                                 SourceText plain_source]\<rparr>)"
proof -
  have path: "getFilePath plain_formatter = ''/work/plain.go''"
    by (simp add: getFilePath_def plain_formatter_def)
  have 1: "files batch_world (getFilePath plain_formatter) = Some plain_source"
    unfolding path by (simp add: batch_world_def)
  have ne: "plain_source \<noteq> example_source"
    by (simp add: plain_source_def example_source_def newline_def)
  have 2: "ParseFile plain_formatter (getFilePath plain_formatter) plain_source = Inr plain_tree"
    by (simp add: plain_formatter_def example_formatter_def example_ParseFile_def ne)
  have 3: "Imports plain_tree = []"
    by (simp add: plain_tree_def)
  have 4: "getCurrentProject plain_formatter batch_world = ''github.com/test/project''"
    by (simp add: getCurrentProject_def plain_formatter_def example_formatter_def)
  have 5: "\<not> getInPlace plain_formatter"
    by (simp add: getInPlace_def plain_formatter_def)
  have 6: "stdout batch_world = []"
    by (simp add: batch_world_def)
  from C8_no_imports_untouched [OF 1 2 3, of True] 1 2 3 4 5 6 show ?thesis
    by simp
qed

text \<open>
  C9. The claim: an error in one file never ends the batch; the other files are processed
  and the counts reported. This holds for the errors that \<open>ProcessFileWithOutput\<close> returns
  (\<open>ProcessFiles_returns\<close> above), but not for every file: \<open>addGroupImports\<close> gives a
  rebuilt entry the comment text that \<open>extractImports\<close> took, which is without its comment
  marker, and \<open>formatImportSpec\<close> calls \<open>Text\<close> on it, which reads the marker by position.
  The file \<open>/work/star.go\<close> has the one import \<open>"fmt" // a*\<close>: it is parsed, the record
  of the import has the comment \<open>a*\<close> with a line end, formatting the rebuilt entry panics
  and so does processing the file. The batch of \<open>/work/star.go\<close> and \<open>/work/main.go\<close>
  ends in that panic, in the world in which it started: \<open>/work/main.go\<close>, which is
  processed with success when it is reached, is not rewritten, nothing is printed, no
  count and no error is returned. The same \<open>/work/main.go\<close> in a batch of its own is
  rewritten and counted.
\<close>

theorem C9_panic_aborts_batch:
  "ParseFile example_formatter ''/work/star.go'' star_source = Inr star_tree
   \<and> extractImports example_formatter star_tree =
       [\<lparr>Name = [], Path = ''fmt'', Comment = ''a*'' @ newline, Group = StdGroup, OrgIndex = 0,
         ProjectName = []\<rparr>]
   \<and> formatImportSpec example_formatter
         \<lparr>SpecName = None, SpecPath = [quote] @ ''fmt'' @ [quote],
          SpecComment = Some [''a*'' @ newline]\<rparr> = None
   \<and> panicked (fileRun example_formatter batch_world ''/work/star.go'')
   \<and> succeeded (fileRun example_formatter batch_world ''/work/main.go'')
   \<and> ProcessFiles example_formatter batch_world [''/work/star.go'', ''/work/main.go''] =
       Panics batch_world
   \<and> (\<exists>g' w'. ProcessFiles example_formatter batch_world [''/work/main.go''] =
                  Returns (None, g') w'
         \<and> files w' ''/work/main.go'' =
             Some (''package main'' @ newline @ newline
                   @ ''import ('' @ newline
                   @ [tab, quote] @ ''fmt'' @ [quote] @ newline
                   @ [tab, quote] @ ''strings'' @ [quote] @ newline
                   @ '')'' @ newline @ newline @ newline
                   @ ''func main() {}'' @ newline)
         \<and> stdout w' = [ProcessedFiles ''/work/main.go'', ProcessedCount 1, EndOfLine])"
proof -
  let ?g = example_formatter and ?w = batch_world
  have parse: "ParseFile ?g ''/work/star.go'' star_source = Inr star_tree"
    by code_simp
  have recs: "extractImports ?g star_tree =
       [\<lparr>Name = [], Path = ''fmt'', Comment = ''a*'' @ newline, Group = StdGroup, OrgIndex = 0,
         ProjectName = []\<rparr>]"
    by code_simp
  have spec: "formatImportSpec ?g
         \<lparr>SpecName = None, SpecPath = [quote] @ ''fmt'' @ [quote],
          SpecComment = Some [''a*'' @ newline]\<rparr> = None"
    by code_simp
  have star: "panicked (fileRun ?g ?w ''/work/star.go'')"
    by code_simp
  have good: "succeeded (fileRun ?g ?w ''/work/main.go'')"
    by code_simp
  have batch: "ProcessFiles ?g ?w [''/work/star.go'', ''/work/main.go''] = Panics ?w"
    using star by (rule ProcessFiles_first_panics)
  have np: "\<forall>r\<in>set (batchRuns ?g ?w [''/work/main.go'']). \<not> panicked r"
    using good by (cases "fileRun ?g ?w ''/work/main.go''") (auto simp: succeeded_def panicked_def)
  have ok: "length (filter succeeded (batchRuns ?g ?w [''/work/main.go''])) = 1"
    using good by simp
  have bad: "length (filter failed (batchRuns ?g ?w [''/work/main.go''])) = 0"
    using good by (cases "fileRun ?g ?w ''/work/main.go''") (auto simp: succeeded_def failed_def split: option.splits)
  have written: "files (batchWorld ?g ?w [''/work/main.go'']) ''/work/main.go'' =
             Some (''package main'' @ newline @ newline
                   @ ''import ('' @ newline
                   @ [tab, quote] @ ''fmt'' @ [quote] @ newline
                   @ [tab, quote] @ ''strings'' @ [quote] @ newline
                   @ '')'' @ newline @ newline @ newline
                   @ ''func main() {}'' @ newline)"
    by code_simp
  have printed: "stdout (batchWorld ?g ?w [''/work/main.go'']) = [ProcessedFiles ''/work/main.go'']"
    by code_simp
  have alone: "\<exists>g' w'. ProcessFiles ?g ?w [''/work/main.go''] = Returns (None, g') w'
         \<and> files w' ''/work/main.go'' =
             Some (''package main'' @ newline @ newline
                   @ ''import ('' @ newline
                   @ [tab, quote] @ ''fmt'' @ [quote] @ newline
                   @ [tab, quote] @ ''strings'' @ [quote] @ newline
                   @ '')'' @ newline @ newline @ newline
                   @ ''func main() {}'' @ newline)
         \<and> stdout w' = [ProcessedFiles ''/work/main.go'', ProcessedCount 1, EndOfLine]"
    unfolding ProcessFiles_returns(1) [OF np] ok bad using written printed by simp
  from parse recs spec star good batch alone show ?thesis by blast
qed

end
